theory Spec2Isabelle
  imports Main
begin

unbundle bit_operations_syntax

section \<open>Python values and exceptions\<close>

text \<open>
  The exceptions the program can raise. \<open>ReferenceError\<close> and \<open>TypeError\<close> are raised
  by \<open>Memory\<close> itself, \<open>KeyError\<close> by a failed lookup in the dispatch table,
  \<open>IndexError\<close> by a list access outside the backing list, \<open>ValueError\<close> and
  \<open>OverflowError\<close> by the builtin \<open>int()\<close>.
\<close>

datatype exn =
    ReferenceError string
  | TypeError string
  | KeyError int
  | IndexError string
  | ValueError string
  | OverflowError string

text \<open>
  A finite Python float is the dyadic rational \<open>m * 2 ^ e\<close>; the other floats are
  the two infinities and NaN.
\<close>

datatype pyfloat = Finite int int | Infinity bool | NaN

text \<open>
  The values that \<open>write_byte\<close> is given as \<open>data\<close>: integers, booleans, floats
  and \<open>None\<close>.
\<close>

datatype pyval = PyInt int | PyBool bool | PyFloat pyfloat | PyNone

text \<open>
  The builtin \<open>int(data)\<close>: the identity on integers, 0 or 1 on booleans, truncation
  toward zero on finite floats; it raises \<open>OverflowError\<close> on an infinity,
  \<open>ValueError\<close> on NaN and \<open>TypeError\<close> on \<open>None\<close>.
\<close>

fun py_int :: "pyval \<Rightarrow> exn + int" where
  "py_int (PyInt n) = Inr n"
| "py_int (PyBool b) = Inr (if b then 1 else 0)"
| "py_int (PyFloat (Finite m e)) =
     Inr (if 0 \<le> e then m * 2 ^ nat e
          else if 0 \<le> m then m div 2 ^ nat (- e)
          else - ((- m) div 2 ^ nat (- e)))"
| "py_int (PyFloat (Infinity _)) = Inl (OverflowError ''cannot convert float infinity to integer'')"
| "py_int (PyFloat NaN) = Inl (ValueError ''cannot convert float NaN to integer'')"
| "py_int PyNone = Inl (TypeError ''int() argument must be a string, a bytes-like object or a real number'')"

definition is_TypeError :: "exn \<Rightarrow> bool" where
  "is_TypeError e = (case e of TypeError _ \<Rightarrow> True | _ \<Rightarrow> False)"

definition is_KeyError :: "exn \<Rightarrow> bool" where
  "is_KeyError e = (case e of KeyError _ \<Rightarrow> True | _ \<Rightarrow> False)"

section \<open>Guarded memory\<close>

text \<open>
  Class \<open>Memory\<close>: the capacity \<open>size\<close> and the backing list. A method that
  mutates the object returns its outcome together with the object as the call leaves it,
  so that the state after a raised exception is part of the model.
\<close>

record Memory =
  size_m :: int
  internal_memory :: "int list"

definition clear :: "Memory \<Rightarrow> Memory" where
  "clear m = m\<lparr>internal_memory := replicate (nat (size_m m)) 0\<rparr>"

definition Memory_init :: "int \<Rightarrow> Memory" where
  "Memory_init sz = clear \<lparr>size_m = sz, internal_memory = []\<rparr>"

definition read_byte :: "Memory \<Rightarrow> int \<Rightarrow> exn + int" where
  "read_byte m address =
     (if address < 0 \<or> address > size_m m - 1
      then Inl (ReferenceError ''Out of bounds memory reference'')
      else if nat address < length (internal_memory m)
      then Inr (internal_memory m ! nat address)
      else Inl (IndexError ''list index out of range''))"

text \<open>
  The body of the \<open>try\<close> block of \<open>write_byte\<close>, then \<open>write_byte\<close> itself, whose
  \<open>except TypeError\<close> clause replaces every \<open>TypeError\<close> of the body by its own.
\<close>

definition write_byte_try :: "Memory \<Rightarrow> int \<Rightarrow> pyval \<Rightarrow> (exn + unit) \<times> Memory" where
  "write_byte_try m address data =
     (case py_int data of
        Inl e \<Rightarrow> (Inl e, m)
      | Inr real_byte \<Rightarrow>
          if real_byte > 0xFF then (Inl (TypeError ''Integer overflow''), m)
          else if real_byte < 0 then (Inl (TypeError ''Integer underflow''), m)
          else if nat address < length (internal_memory m)
          then (Inr (), m\<lparr>internal_memory := (internal_memory m)[nat address := real_byte]\<rparr>)
          else (Inl (IndexError ''list assignment index out of range''), m))"

definition write_byte :: "Memory \<Rightarrow> int \<Rightarrow> pyval \<Rightarrow> (exn + unit) \<times> Memory" where
  "write_byte m address data =
     (if address < 0 \<or> address > size_m m - 1
      then (Inl (ReferenceError ''Out of bounds memory reference''), m)
      else case write_byte_try m address data of
             (Inl e, m') \<Rightarrow>
               if is_TypeError e then (Inl (TypeError ''Data must be an 8-bit number''), m')
               else (Inl e, m')
           | (Inr u, m') \<Rightarrow> (Inr u, m'))"

text \<open>
  What \<open>__init__\<close> and \<open>clear\<close> establish and \<open>write_byte\<close> keeps: the backing list
  has \<open>size\<close> cells, each an integer in [0, 255].
\<close>

definition Memory_inv :: "Memory \<Rightarrow> bool" where
  "Memory_inv m =
     (int (length (internal_memory m)) = size_m m \<and>
      list_all (\<lambda>c. 0 \<le> c \<and> c \<le> 255) (internal_memory m))"

section \<open>Text written by \<open>print\<close>\<close>

text \<open>
  \<open>str(n)\<close> of an integer, and the conversion \<open>%02X\<close> of the \<open>%\<close> operator:
  upper-case hexadecimal digits, the sign first, zero-padded to two characters.
\<close>

definition digit_char :: "nat \<Rightarrow> char" where
  "digit_char d = ''0123456789ABCDEF'' ! d"

fun digits_of :: "nat \<Rightarrow> nat \<Rightarrow> string" where
  "digits_of base n =
     (if base < 2 \<or> n < base then [digit_char n]
      else digits_of base (n div base) @ [digit_char (n mod base)])"

definition zero_pad :: "nat \<Rightarrow> string \<Rightarrow> string" where
  "zero_pad w s = replicate (w - length s) (CHR ''0'') @ s"

definition str_int :: "int \<Rightarrow> string" where
  "str_int n = (if n < 0 then ''-'' @ digits_of 10 (nat (- n)) else digits_of 10 (nat n))"

definition format_02X :: "int \<Rightarrow> string" where
  "format_02X n =
     (if n < 0 then ''-'' @ zero_pad 1 (digits_of 16 (nat (- n)))
      else zero_pad 2 (digits_of 16 (nat n)))"

section \<open>The CPU\<close>

text \<open>
  The attributes of class \<open>CPU\<close>, and \<open>stdout\<close>: the lines printed so far. The flag
  masks and the dispatch table are set once by \<open>__init__\<close> and never assigned again, so
  they are constants here.
\<close>

record cpu =
  MAX_MEM :: int
  ram :: Memory
  trace_history :: "string list"
  gp_registers :: Memory
  PC :: int
  IR :: int
  FL :: int
  stdout :: "string list"

definition FLAG_RUNNING :: int where "FLAG_RUNNING = 128"
definition FLAG_LESS :: int where "FLAG_LESS = 4"
definition FLAG_GREATER :: int where "FLAG_GREATER = 2"
definition FLAG_EQUAL :: int where "FLAG_EQUAL = 1"

text \<open>
  A method of the CPU takes the machine and returns what it returns or raises, and the
  machine as it leaves it: an exception keeps every mutation made before it.
\<close>

type_synonym 'a action = "cpu \<Rightarrow> (exn + 'a) \<times> cpu"

definition and_then :: "'a action \<Rightarrow> ('a \<Rightarrow> 'b action) \<Rightarrow> 'b action" where
  "and_then f g s = (case f s of (Inl e, s') \<Rightarrow> (Inl e, s') | (Inr a, s') \<Rightarrow> g a s')"

definition try_except_KeyError :: "'a action \<Rightarrow> 'a action \<Rightarrow> 'a action" where
  "try_except_KeyError body handler s =
     (case body s of
        (Inl e, s') \<Rightarrow> if is_KeyError e then handler s' else (Inl e, s')
      | (Inr a, s') \<Rightarrow> (Inr a, s'))"

definition print :: "string \<Rightarrow> unit action" where
  "print line s = (Inr (), s\<lparr>stdout := stdout s @ [line]\<rparr>)"

definition CPU_init :: cpu where
  "CPU_init =
     \<lparr>MAX_MEM = 256,
      ram = Memory_init 256,
      trace_history = [],
      gp_registers = snd (write_byte (Memory_init 8) 7 (PyInt 0xF4)),
      PC = 0, IR = 0, FL = 0x00, stdout = []\<rparr>"

definition ram_read :: "int \<Rightarrow> int action" where
  "ram_read address s = (read_byte (ram s) address, s)"

definition ram_write :: "int \<Rightarrow> pyval \<Rightarrow> unit action" where
  "ram_write address val s =
     (case write_byte (ram s) address val of (r, m) \<Rightarrow> (r, s\<lparr>ram := m\<rparr>))"

text \<open>
  \<open>self.gp_registers.read_byte(n)\<close> and \<open>self.gp_registers.write_byte(n, v)\<close>.
\<close>

definition gp_read_byte :: "int \<Rightarrow> int action" where
  "gp_read_byte reg_num s = (read_byte (gp_registers s) reg_num, s)"

definition gp_write_byte :: "int \<Rightarrow> pyval \<Rightarrow> unit action" where
  "gp_write_byte reg_num val s =
     (case write_byte (gp_registers s) reg_num val of (r, m) \<Rightarrow> (r, s\<lparr>gp_registers := m\<rparr>))"

definition get_SP :: "int action" where
  "get_SP = gp_read_byte 7"

definition set_SP :: "int \<Rightarrow> unit action" where
  "set_SP val = gp_write_byte 7 (PyInt val)"

text \<open>
  \<open>load\<close> after the file has been read: \<open>data\<close> are the integers parsed from its
  lines, in order.
\<close>

fun load_loop :: "int list \<Rightarrow> int \<Rightarrow> unit action" where
  "load_loop [] address s = (Inr (), s)"
| "load_loop (data # rest) address s =
     (case ram_write address (PyInt data) s of
        (Inl e, s') \<Rightarrow> (Inl e, s')
      | (Inr _, s') \<Rightarrow> load_loop rest (address + 1) s')"

definition load :: "int list \<Rightarrow> unit action" where
  "load ls8 s = load_loop ls8 0 (s\<lparr>ram := clear (ram s)\<rparr>)"

subsection \<open>Instructions\<close>

definition HLT :: "unit action" where
  "HLT s = (Inr (), s\<lparr>FL := FL s AND NOT FLAG_RUNNING\<rparr>)"

definition LDI :: "unit action" where
  "LDI =
     and_then (\<lambda>s. ram_read (PC s + 1) s) (\<lambda>reg_num.
     and_then (\<lambda>s. ram_read (PC s + 2) s) (\<lambda>reg_val.
     gp_write_byte reg_num (PyInt reg_val)))"

definition PRN :: "unit action" where
  "PRN =
     and_then (\<lambda>s. ram_read (PC s + 1) s) (\<lambda>reg_num.
     and_then (gp_read_byte reg_num) (\<lambda>reg_val.
     print (str_int reg_val)))"

definition PUSH :: "unit action" where
  "PUSH =
     and_then get_SP (\<lambda>sp.
     and_then (set_SP (sp - 1)) (\<lambda>_.
     and_then (\<lambda>s. ram_read (PC s + 1) s) (\<lambda>reg_num.
     and_then (gp_read_byte reg_num) (\<lambda>data.
     and_then get_SP (\<lambda>sp'.
     ram_write sp' (PyInt data))))))"

definition POP :: "unit action" where
  "POP =
     and_then (\<lambda>s. ram_read (PC s + 1) s) (\<lambda>reg_num.
     and_then get_SP (\<lambda>sp.
     and_then (ram_read sp) (\<lambda>data.
     and_then (gp_write_byte reg_num (PyInt data)) (\<lambda>_.
     and_then get_SP (\<lambda>sp'.
     set_SP (sp' + 1))))))"

definition JMP :: "unit action" where
  "JMP =
     and_then (\<lambda>s. ram_read (PC s + 1) s) (\<lambda>reg_num.
     and_then (gp_read_byte reg_num) (\<lambda>target s.
     (Inr (), s\<lparr>PC := target\<rparr>)))"

definition JEQ :: "unit action" where
  "JEQ s =
     (if FL s AND FLAG_EQUAL = FLAG_EQUAL then JMP s
      else (Inr (), s\<lparr>PC := PC s + 2\<rparr>))"

definition JNE :: "unit action" where
  "JNE s =
     (if FL s AND FLAG_EQUAL = 0 then JMP s
      else (Inr (), s\<lparr>PC := PC s + 2\<rparr>))"

definition MUL :: "int \<Rightarrow> int \<Rightarrow> unit action" where
  "MUL reg_a reg_b =
     and_then (gp_read_byte reg_a) (\<lambda>reg_a_val.
     and_then (gp_read_byte reg_b) (\<lambda>reg_b_val.
     let result = reg_a_val * reg_b_val
     in gp_write_byte reg_a (PyInt result)))"

definition CMP :: "int \<Rightarrow> int \<Rightarrow> unit action" where
  "CMP reg_a reg_b =
     and_then (gp_read_byte reg_a) (\<lambda>reg_a_val.
     and_then (gp_read_byte reg_b) (\<lambda>reg_b_val s.
     let s1 = (if reg_a_val = reg_b_val then s\<lparr>FL := FL s OR FLAG_EQUAL\<rparr>
               else s\<lparr>FL := FL s AND NOT FLAG_EQUAL\<rparr>);
         s2 = (if reg_a_val < reg_b_val then s1\<lparr>FL := FL s1 OR FLAG_LESS\<rparr>
               else s1\<lparr>FL := FL s1 AND NOT FLAG_LESS\<rparr>);
         s3 = (if reg_a_val > reg_b_val then s2\<lparr>FL := FL s2 OR FLAG_GREATER\<rparr>
               else s2\<lparr>FL := FL s2 AND NOT FLAG_GREATER\<rparr>)
     in (Inr (), s3)))"

subsection \<open>Dispatch\<close>

text \<open>
  The one dispatch table holds bound methods of two shapes: those called with no
  argument and the ALU ones called with two. Calling a method with the wrong number of
  arguments raises \<open>TypeError\<close>.
\<close>

datatype handler =
    Method0 "unit action"
  | Method2 "int \<Rightarrow> int \<Rightarrow> unit action"

definition dispatch_table :: "int \<Rightarrow> handler option" where
  "dispatch_table opcode =
     (if opcode = 0x01 then Some (Method0 HLT)
      else if opcode = 0x47 then Some (Method0 PRN)
      else if opcode = 0x82 then Some (Method0 LDI)
      else if opcode = 0x45 then Some (Method0 PUSH)
      else if opcode = 0x46 then Some (Method0 POP)
      else if opcode = 0xA2 then Some (Method2 MUL)
      else if opcode = 0xA7 then Some (Method2 CMP)
      else if opcode = 0x54 then Some (Method0 JMP)
      else if opcode = 0x56 then Some (Method0 JEQ)
      else if opcode = 0x55 then Some (Method0 JNE)
      else None)"

definition lookup :: "int \<Rightarrow> handler action" where
  "lookup opcode s =
     (case dispatch_table opcode of
        None \<Rightarrow> (Inl (KeyError opcode), s)
      | Some h \<Rightarrow> (Inr h, s))"

definition call0 :: "handler \<Rightarrow> unit action" where
  "call0 h s =
     (case h of
        Method0 f \<Rightarrow> f s
      | Method2 _ \<Rightarrow> (Inl (TypeError ''missing 2 required positional arguments''), s))"

definition call2 :: "handler \<Rightarrow> int \<Rightarrow> int \<Rightarrow> unit action" where
  "call2 h a b s =
     (case h of
        Method2 f \<Rightarrow> f a b s
      | Method0 _ \<Rightarrow> (Inl (TypeError ''takes 1 positional argument but 3 were given''), s))"

definition alu :: "int \<Rightarrow> int \<Rightarrow> int \<Rightarrow> unit action" where
  "alu op reg_a reg_b =
     try_except_KeyError
       (and_then (\<lambda>s. lookup (IR s) s) (\<lambda>h. call2 h reg_a reg_b))
       (and_then
          (\<lambda>s. print (''Unknown ALU instruction 0x'' @ format_02X (IR s) @
                       '' at address 0x'' @ format_02X (PC s)) s)
          (\<lambda>_. HLT))"

subsection \<open>The run loop\<close>

text \<open>
  One pass through the body of the \<open>while\<close> loop of \<open>run\<close>, in its three steps:
  \<open>fetch\<close> loads \<open>IR\<close>; \<open>execute\<close> is the \<open>if use_alu\<close> statement, in which
  the two operands of \<open>self.alu\<close> are read before \<open>alu\<close> is entered; \<open>advance\<close> is
  the final \<open>if not sets_pc\<close>, on the fields decoded from \<open>IR\<close> before the execution.
  The loop may run forever, so \<open>run_loop\<close> returns an option: \<open>None\<close> when it does.
\<close>

definition fetch :: "unit action" where
  "fetch = and_then (\<lambda>s. ram_read (PC s) s) (\<lambda>ir s. (Inr (), s\<lparr>IR := ir\<rparr>))"

definition num_ops :: "int \<Rightarrow> int" where
  "num_ops ir = drop_bit 6 (ir AND 0xC0)"

definition use_alu :: "int \<Rightarrow> int" where
  "use_alu ir = drop_bit 5 (ir AND 0x20)"

definition sets_pc :: "int \<Rightarrow> int" where
  "sets_pc ir = drop_bit 4 (ir AND 0x10)"

definition insr_id :: "int \<Rightarrow> int" where
  "insr_id ir = drop_bit 0 (ir AND 0x0F)"

definition execute :: "unit action" where
  "execute s =
     (if use_alu (IR s) \<noteq> 0
      then and_then (\<lambda>s. ram_read (PC s + 1) s) (\<lambda>a.
           and_then (\<lambda>s. ram_read (PC s + 2) s) (\<lambda>b.
           alu (IR s) a b)) s
      else try_except_KeyError
             (and_then (\<lambda>s. lookup (IR s) s) call0)
             (and_then
                (\<lambda>s. print (''Unknown instruction 0x'' @ format_02X (IR s) @
                             '' at address 0x'' @ format_02X (PC s)) s)
                (\<lambda>_. HLT)) s)"

definition advance :: "int \<Rightarrow> unit action" where
  "advance ir s =
     (if sets_pc ir = 0 then (Inr (), s\<lparr>PC := PC s + (1 + num_ops ir)\<rparr>)
      else (Inr (), s))"

definition run_cycle :: "unit action" where
  "run_cycle =
     and_then fetch (\<lambda>_ s.
     and_then execute (\<lambda>_. advance (IR s)) s)"

partial_function (option) run_loop :: "cpu \<Rightarrow> ((exn + unit) \<times> cpu) option" where
  "run_loop s =
     (if FL s AND FLAG_RUNNING = FLAG_RUNNING
      then (case run_cycle s of
              (Inl e, s') \<Rightarrow> Some (Inl e, s')
            | (Inr _, s') \<Rightarrow> run_loop s')
      else Some (Inr (), s))"

declare run_loop.simps [code]

definition run :: "cpu \<Rightarrow> ((exn + unit) \<times> cpu) option" where
  "run s = run_loop (s\<lparr>FL := FL s OR FLAG_RUNNING\<rparr>)"

text \<open>
  The script at the end of the file: a new CPU, the program loaded, then \<open>run\<close>.
\<close>

definition main :: "int list \<Rightarrow> ((exn + unit) \<times> cpu) option" where
  "main ls8 =
     (case load ls8 CPU_init of
        (Inl e, s) \<Rightarrow> Some (Inl e, s)
      | (Inr _, s) \<Rightarrow> run s)"

section \<open>Vocabulary of the properties\<close>

text \<open>
  \<open>reg s n\<close> is the content of register \<open>n\<close> and \<open>mem s a\<close> the byte of RAM at
  address \<open>a\<close>; \<open>set_reg\<close> and \<open>set_mem\<close> are the machine with one of them
  replaced. A flag is set when the test the source uses for it succeeds
  (\<open>self.FL & flag == flag\<close>). \<open>cpu_inv\<close> is what \<open>__init__\<close> establishes of the
  two memories and every instruction keeps. \<open>final_reg n\<close> reads register \<open>n\<close> of the
  machine that a run leaves.
\<close>

definition reg :: "cpu \<Rightarrow> int \<Rightarrow> int" where
  "reg s n = internal_memory (gp_registers s) ! nat n"

definition flag_set :: "cpu \<Rightarrow> int \<Rightarrow> bool" where
  "flag_set s flag = (FL s AND flag = flag)"

definition cpu_inv :: "cpu \<Rightarrow> bool" where
  "cpu_inv s =
     (Memory_inv (ram s) \<and> size_m (ram s) = 256 \<and>
      Memory_inv (gp_registers s) \<and> size_m (gp_registers s) = 8)"

definition final_reg :: "int \<Rightarrow> ((exn + unit) \<times> cpu) option \<Rightarrow> int option" where
  "final_reg n res = map_option (\<lambda>(r, s). reg s n) res"

definition mem :: "cpu \<Rightarrow> int \<Rightarrow> int" where
  "mem s a = internal_memory (ram s) ! nat a"

definition set_reg :: "cpu \<Rightarrow> int \<Rightarrow> int \<Rightarrow> cpu" where
  "set_reg s n v =
     s\<lparr>gp_registers := (gp_registers s)\<lparr>internal_memory := (internal_memory (gp_registers s))[nat n := v]\<rparr>\<rparr>"

definition set_mem :: "cpu \<Rightarrow> int \<Rightarrow> int \<Rightarrow> cpu" where
  "set_mem s a v =
     s\<lparr>ram := (ram s)\<lparr>internal_memory := (internal_memory (ram s))[nat a := v]\<rparr>\<rparr>"

text \<open>
  An action keeps a property of the machine when every outcome of it, raised or returned,
  leaves a machine that has the property. \<open>cycle_frame s0\<close> is the property of one
  pass of the run loop: \<open>IR\<close> is the one of \<open>s0\<close>, and so is \<open>PC\<close> when the
  instruction does not set it.
\<close>

definition stable :: "(cpu \<Rightarrow> bool) \<Rightarrow> 'a action \<Rightarrow> bool" where
  "stable P f = (\<forall>s r s'. P s \<longrightarrow> f s = (r, s') \<longrightarrow> P s')"

definition cycle_frame :: "cpu \<Rightarrow> cpu \<Rightarrow> bool" where
  "cycle_frame s0 s = (IR s = IR s0 \<and> (sets_pc (IR s0) = 0 \<longrightarrow> PC s = PC s0))"

section \<open>Guarded memory: reads, writes and the invariant\<close>

lemma Memory_inv_init: "0 \<le> sz \<Longrightarrow> Memory_inv (Memory_init sz)"
  by (simp add: Memory_inv_def Memory_init_def clear_def list_all_iff)

lemma read_byte_ok:
  "Memory_inv m \<Longrightarrow> 0 \<le> a \<Longrightarrow> a < size_m m \<Longrightarrow> read_byte m a = Inr (internal_memory m ! nat a)"
  by (auto simp: read_byte_def Memory_inv_def)

lemma read_byte_range:
  "Memory_inv m \<Longrightarrow> read_byte m a = Inr v \<Longrightarrow> 0 \<le> v \<and> v \<le> 255"
  by (auto simp: read_byte_def Memory_inv_def list_all_length split: if_splits)

lemma write_byte_ok:
  "Memory_inv m \<Longrightarrow> 0 \<le> a \<Longrightarrow> a < size_m m \<Longrightarrow> 0 \<le> v \<Longrightarrow> v \<le> 255 \<Longrightarrow>
   write_byte m a (PyInt v) = (Inr (), m\<lparr>internal_memory := (internal_memory m)[nat a := v]\<rparr>)"
  by (auto simp: write_byte_def write_byte_try_def Memory_inv_def)

lemma write_byte_bad:
  "0 \<le> a \<Longrightarrow> a < size_m m \<Longrightarrow> v < 0 \<or> 255 < v \<Longrightarrow>
   write_byte m a (PyInt v) = (Inl (TypeError ''Data must be an 8-bit number''), m)"
  by (auto simp: write_byte_def write_byte_try_def is_TypeError_def)

lemma Memory_inv_update:
  "Memory_inv m \<Longrightarrow> 0 \<le> v \<Longrightarrow> v \<le> 255 \<Longrightarrow>
   Memory_inv (m\<lparr>internal_memory := (internal_memory m)[i := v]\<rparr>)"
  by (auto simp: Memory_inv_def list_all_iff dest!: set_update_subset_insert [THEN subsetD])

lemma Memory_inv_write_byte:
  "Memory_inv m \<Longrightarrow> write_byte m a d = (r, m') \<Longrightarrow> Memory_inv m' \<and> size_m m' = size_m m"
  by (auto simp: write_byte_def write_byte_try_def Memory_inv_def list_all_length nth_list_update
      split: if_splits sum.splits)

text \<open>
  C3. In a memory of capacity \<open>size\<close>, at an address \<open>a\<close> with \<open>0 \<le> a < size\<close>:
  writing an integer \<open>v\<close> of [0, 255] succeeds and reading \<open>a\<close> afterwards returns
  \<open>v\<close>; writing an integer outside [0, 255] raises the \<open>TypeError\<close> of
  \<open>write_byte\<close> and leaves the memory as it was.
\<close>

theorem write_then_read:
  assumes "Memory_inv m" and "0 \<le> a" and "a < size_m m"
  shows "(0 \<le> v \<and> v \<le> 255 \<longrightarrow>
            (\<exists>m'. write_byte m a (PyInt v) = (Inr (), m') \<and> read_byte m' a = Inr v)) \<and>
         (\<not> (0 \<le> v \<and> v \<le> 255) \<longrightarrow>
            write_byte m a (PyInt v) = (Inl (TypeError ''Data must be an 8-bit number''), m))"
proof (intro conjI impI)
  assume v: "0 \<le> v \<and> v \<le> 255"
  let ?m' = "m\<lparr>internal_memory := (internal_memory m)[nat a := v]\<rparr>"
  have w: "write_byte m a (PyInt v) = (Inr (), ?m')"
    using assms v by (simp add: write_byte_ok)
  have "Memory_inv ?m'" using assms(1) v by (simp add: Memory_inv_update)
  then have "read_byte ?m' a = Inr (internal_memory ?m' ! nat a)"
    using assms by (simp add: read_byte_ok)
  moreover have "nat a < length (internal_memory m)"
    using assms by (auto simp: Memory_inv_def)
  ultimately have "read_byte ?m' a = Inr v" by simp
  with w show "\<exists>m'. write_byte m a (PyInt v) = (Inr (), m') \<and> read_byte m' a = Inr v"
    by blast
next
  assume "\<not> (0 \<le> v \<and> v \<le> 255)"
  then show "write_byte m a (PyInt v) = (Inl (TypeError ''Data must be an 8-bit number''), m)"
    using assms by (auto simp: write_byte_bad)
qed

theorem write_then_read_witness:
  "(\<exists>m'. write_byte (Memory_init 4) 2 (PyInt 200) = (Inr (), m') \<and> read_byte m' 2 = Inr 200) \<and>
   write_byte (Memory_init 4) 2 (PyInt 256) =
     (Inl (TypeError ''Data must be an 8-bit number''), Memory_init 4)"
proof -
  have i: "Memory_inv (Memory_init 4)" by (simp add: Memory_inv_init)
  have s: "(2::int) < size_m (Memory_init 4)" by (simp add: Memory_init_def clear_def)
  show ?thesis
    using write_then_read [OF i _ s, of 200] write_then_read [OF i _ s, of 256] by simp
qed

section \<open>Flags as bits\<close>

lemma and_pow2_eq_iff: "(x::int) AND 2 ^ k = 2 ^ k \<longleftrightarrow> bit x k"
  by (auto simp: bit_eq_iff [of "x AND 2 ^ k"] bit_simps)

lemma bit_or_pow2: "bit ((x::int) OR 2 ^ k) n \<longleftrightarrow> bit x n \<or> n = k"
  by (auto simp: bit_simps)

lemma bit_and_not_pow2: "bit ((x::int) AND NOT (2 ^ k)) n \<longleftrightarrow> bit x n \<and> n \<noteq> k"
  by (auto simp: bit_simps)

lemma flag_set_iff_bit:
  "flag_set s FLAG_EQUAL = bit (FL s) 0"
  "flag_set s FLAG_GREATER = bit (FL s) 1"
  "flag_set s FLAG_LESS = bit (FL s) 2"
  "flag_set s FLAG_RUNNING = bit (FL s) 7"
  using and_pow2_eq_iff [of "FL s" 0] and_pow2_eq_iff [of "FL s" 1]
    and_pow2_eq_iff [of "FL s" 2] and_pow2_eq_iff [of "FL s" 7]
  by (simp_all add: flag_set_def FLAG_EQUAL_def FLAG_GREATER_def FLAG_LESS_def FLAG_RUNNING_def)

lemma bit_set_flag:
  "bit (x OR FLAG_EQUAL) n \<longleftrightarrow> bit x n \<or> n = 0"
  "bit (x OR FLAG_GREATER) n \<longleftrightarrow> bit x n \<or> n = 1"
  "bit (x OR FLAG_LESS) n \<longleftrightarrow> bit x n \<or> n = 2"
  "bit (x OR FLAG_RUNNING) n \<longleftrightarrow> bit x n \<or> n = 7"
  using bit_or_pow2 [of x 0 n] bit_or_pow2 [of x 1 n] bit_or_pow2 [of x 2 n] bit_or_pow2 [of x 7 n]
  by (simp_all add: FLAG_EQUAL_def FLAG_GREATER_def FLAG_LESS_def FLAG_RUNNING_def)

lemma bit_clear_flag:
  "bit (x AND NOT FLAG_EQUAL) n \<longleftrightarrow> bit x n \<and> n \<noteq> 0"
  "bit (x AND NOT FLAG_GREATER) n \<longleftrightarrow> bit x n \<and> n \<noteq> 1"
  "bit (x AND NOT FLAG_LESS) n \<longleftrightarrow> bit x n \<and> n \<noteq> 2"
  "bit (x AND NOT FLAG_RUNNING) n \<longleftrightarrow> bit x n \<and> n \<noteq> 7"
  using bit_and_not_pow2 [of x 0 n] bit_and_not_pow2 [of x 1 n] bit_and_not_pow2 [of x 2 n]
    bit_and_not_pow2 [of x 7 n]
  by (simp_all add: FLAG_EQUAL_def FLAG_GREATER_def FLAG_LESS_def FLAG_RUNNING_def)

lemma cpu_inv_FL [simp]: "cpu_inv (s\<lparr>FL := x\<rparr>) = cpu_inv s"
  by (simp add: cpu_inv_def)

lemma gp_read_byte_ok:
  "cpu_inv s \<Longrightarrow> 0 \<le> n \<Longrightarrow> n < 8 \<Longrightarrow> gp_read_byte n s = (Inr (reg s n), s)"
  by (simp add: gp_read_byte_def cpu_inv_def read_byte_ok reg_def)

section \<open>Reads and writes of the machine\<close>

lemma and_then_Inr: "f s = (Inr a, s') \<Longrightarrow> and_then f g s = g a s'"
  by (simp add: and_then_def)

lemma and_then_Inl: "f s = (Inl e, s') \<Longrightarrow> and_then f g s = (Inl e, s')"
  by (simp add: and_then_def)

lemma ram_read_ok:
  "cpu_inv s \<Longrightarrow> 0 \<le> a \<Longrightarrow> a \<le> 255 \<Longrightarrow> ram_read a s = (Inr (mem s a), s)"
  by (simp add: ram_read_def cpu_inv_def read_byte_ok mem_def)

lemma ram_read_out_of_bounds:
  "cpu_inv s \<Longrightarrow> a < 0 \<or> 255 < a \<Longrightarrow>
   ram_read a s = (Inl (ReferenceError ''Out of bounds memory reference''), s)"
  by (auto simp: ram_read_def cpu_inv_def read_byte_def)

lemma mem_range: "cpu_inv s \<Longrightarrow> 0 \<le> a \<Longrightarrow> a \<le> 255 \<Longrightarrow> 0 \<le> mem s a \<and> mem s a \<le> 255"
  by (auto simp: cpu_inv_def Memory_inv_def mem_def list_all_length)

lemma reg_range: "cpu_inv s \<Longrightarrow> 0 \<le> n \<Longrightarrow> n < 8 \<Longrightarrow> 0 \<le> reg s n \<and> reg s n \<le> 255"
  by (auto simp: cpu_inv_def Memory_inv_def reg_def list_all_length)

lemma gp_write_byte_ok:
  "cpu_inv s \<Longrightarrow> 0 \<le> n \<Longrightarrow> n < 8 \<Longrightarrow> 0 \<le> v \<Longrightarrow> v \<le> 255 \<Longrightarrow>
   gp_write_byte n (PyInt v) s = (Inr (), set_reg s n v)"
  by (simp add: gp_write_byte_def cpu_inv_def write_byte_ok set_reg_def)

lemma gp_write_byte_bad:
  "cpu_inv s \<Longrightarrow> 0 \<le> n \<Longrightarrow> n < 8 \<Longrightarrow> v < 0 \<or> 255 < v \<Longrightarrow>
   gp_write_byte n (PyInt v) s = (Inl (TypeError ''Data must be an 8-bit number''), s)"
  by (simp add: gp_write_byte_def cpu_inv_def write_byte_bad)

lemma ram_write_ok:
  "cpu_inv s \<Longrightarrow> 0 \<le> a \<Longrightarrow> a \<le> 255 \<Longrightarrow> 0 \<le> v \<Longrightarrow> v \<le> 255 \<Longrightarrow>
   ram_write a (PyInt v) s = (Inr (), set_mem s a v)"
  by (simp add: ram_write_def cpu_inv_def write_byte_ok set_mem_def)

lemma cpu_inv_set_reg:
  "cpu_inv s \<Longrightarrow> 0 \<le> v \<Longrightarrow> v \<le> 255 \<Longrightarrow> cpu_inv (set_reg s n v)"
  by (simp add: cpu_inv_def set_reg_def Memory_inv_update)

lemma cpu_inv_set_mem:
  "cpu_inv s \<Longrightarrow> 0 \<le> v \<Longrightarrow> v \<le> 255 \<Longrightarrow> cpu_inv (set_mem s a v)"
  by (simp add: cpu_inv_def set_mem_def Memory_inv_update)

lemma cpu_inv_PC [simp]: "cpu_inv (s\<lparr>PC := x\<rparr>) = cpu_inv s"
  by (simp add: cpu_inv_def)

lemma cpu_inv_IR [simp]: "cpu_inv (s\<lparr>IR := x\<rparr>) = cpu_inv s"
  by (simp add: cpu_inv_def)

lemma cpu_inv_stdout [simp]: "cpu_inv (s\<lparr>stdout := x\<rparr>) = cpu_inv s"
  by (simp add: cpu_inv_def)

lemma reg_set_reg:
  "cpu_inv s \<Longrightarrow> 0 \<le> n \<Longrightarrow> n < 8 \<Longrightarrow> 0 \<le> k \<Longrightarrow>
   reg (set_reg s n v) k = (if k = n then v else reg s k)"
  by (auto simp: reg_def set_reg_def cpu_inv_def Memory_inv_def nth_list_update)

lemma mem_set_mem:
  "cpu_inv s \<Longrightarrow> 0 \<le> a \<Longrightarrow> a \<le> 255 \<Longrightarrow> 0 \<le> b \<Longrightarrow>
   mem (set_mem s a v) b = (if b = a then v else mem s b)"
  by (auto simp: mem_def set_mem_def cpu_inv_def Memory_inv_def nth_list_update)

lemma set_reg_simps [simp]:
  "PC (set_reg s n v) = PC s" "IR (set_reg s n v) = IR s" "FL (set_reg s n v) = FL s"
  "ram (set_reg s n v) = ram s" "stdout (set_reg s n v) = stdout s"
  "mem (set_reg s n v) a = mem s a"
  by (simp_all add: set_reg_def mem_def)

lemma set_mem_simps [simp]:
  "PC (set_mem s a v) = PC s" "IR (set_mem s a v) = IR s" "FL (set_mem s a v) = FL s"
  "gp_registers (set_mem s a v) = gp_registers s" "stdout (set_mem s a v) = stdout s"
  "reg (set_mem s a v) n = reg s n"
  by (simp_all add: set_mem_def reg_def)

lemma field_update_simps [simp]:
  "mem (s\<lparr>PC := x\<rparr>) a = mem s a" "reg (s\<lparr>PC := x\<rparr>) n = reg s n"
  "mem (s\<lparr>IR := x\<rparr>) a = mem s a" "reg (s\<lparr>IR := x\<rparr>) n = reg s n"
  "mem (s\<lparr>FL := x\<rparr>) a = mem s a" "reg (s\<lparr>FL := x\<rparr>) n = reg s n"
  "flag_set (s\<lparr>PC := x\<rparr>) f = flag_set s f" "flag_set (s\<lparr>IR := x\<rparr>) f = flag_set s f"
  by (simp_all add: mem_def reg_def flag_set_def)

lemma JMP_ok:
  assumes "cpu_inv s" and "0 \<le> PC s + 1" and "PC s + 1 \<le> 255" and "mem s (PC s + 1) < 8"
  shows "JMP s = (Inr (), s\<lparr>PC := reg s (mem s (PC s + 1))\<rparr>)"
proof -
  have "0 \<le> mem s (PC s + 1)" using assms mem_range by blast
  then show ?thesis
    using assms by (simp add: JMP_def and_then_def ram_read_ok gp_read_byte_ok)
qed

lemma equal_flag_cases: "(FL s AND FLAG_EQUAL = 0) = (\<not> flag_set s FLAG_EQUAL)"
  by (simp add: flag_set_def FLAG_EQUAL_def and_one_eq)

section \<open>What a pass of the run loop keeps\<close>

lemma stableD: "stable P f \<Longrightarrow> P s \<Longrightarrow> f s = (r, s') \<Longrightarrow> P s'"
  unfolding stable_def by blast

lemma stable_and_then:
  assumes "stable P f" and "\<And>a. stable P (g a)"
  shows "stable P (and_then f g)"
  unfolding stable_def
proof (intro allI impI)
  fix s r s' assume P: "P s" and run: "and_then f g s = (r, s')"
  obtain r1 s1 where f: "f s = (r1, s1)" by (cases "f s")
  then have P1: "P s1" using assms(1) P by (rule_tac stableD)
  show "P s'"
  proof (cases r1)
    case (Inl e)
    with f run have "s' = s1" by (simp add: and_then_def)
    with P1 show ?thesis by simp
  next
    case (Inr a)
    with f run have "g a s1 = (r, s')" by (simp add: and_then_def)
    with assms(2) P1 show ?thesis by (rule_tac stableD)
  qed
qed

lemma stable_ram_read: "stable P (\<lambda>s. ram_read (h s) s)"
  by (simp add: stable_def ram_read_def)

lemma stable_ram_read': "stable P (ram_read a)"
  by (simp add: stable_def ram_read_def)

lemma stable_gp_read_byte: "stable P (gp_read_byte n)"
  by (simp add: stable_def gp_read_byte_def)

lemma stable_get_SP: "stable P get_SP"
  by (simp add: get_SP_def stable_gp_read_byte)

lemma stable_gp_write_byte: "stable (cycle_frame c) (gp_write_byte n v)"
  by (auto simp: stable_def gp_write_byte_def cycle_frame_def split: prod.splits)

lemma stable_ram_write: "stable (cycle_frame c) (ram_write a v)"
  by (auto simp: stable_def ram_write_def cycle_frame_def split: prod.splits)

lemma stable_print: "stable (cycle_frame c) (\<lambda>s. print (l s) s)"
  by (simp add: stable_def print_def cycle_frame_def)

lemma stable_HLT: "stable (cycle_frame c) HLT"
  by (simp add: stable_def HLT_def cycle_frame_def)

lemmas stable_intros =
  stable_and_then stable_ram_read stable_ram_read' stable_gp_read_byte stable_get_SP
  stable_gp_write_byte stable_ram_write stable_print stable_HLT

lemma stable_LDI: "stable (cycle_frame c) LDI"
  unfolding LDI_def by (intro stable_intros)

lemma stable_PRN: "stable (cycle_frame c) PRN"
  unfolding PRN_def by (intro stable_intros)

lemma stable_PUSH: "stable (cycle_frame c) PUSH"
  unfolding PUSH_def set_SP_def by (intro stable_intros)

lemma stable_POP: "stable (cycle_frame c) POP"
  unfolding POP_def set_SP_def by (intro stable_intros)

lemma stable_MUL: "stable (cycle_frame c) (MUL a b)"
  unfolding MUL_def Let_def by (intro stable_intros)

lemma stable_CMP: "stable (cycle_frame c) (CMP a b)"
  unfolding CMP_def
  by (intro stable_intros) (simp add: stable_def cycle_frame_def Let_def)

lemma stable_JMP: "sets_pc (IR c) \<noteq> 0 \<Longrightarrow> stable (cycle_frame c) JMP"
  unfolding JMP_def
  by (intro stable_intros) (simp add: stable_def cycle_frame_def)

lemma stable_cond:
  assumes "stable P f" and "stable P g"
  shows "stable P (\<lambda>s. if b s then f s else g s)"
  unfolding stable_def
proof (intro allI impI)
  fix s r s' assume P: "P s" and run: "(if b s then f s else g s) = (r, s')"
  show "P s'"
  proof (cases "b s")
    case True
    with run have "f s = (r, s')" by simp
    with assms(1) P show ?thesis by (blast dest: stableD)
  next
    case False
    with run have "g s = (r, s')" by simp
    with assms(2) P show ?thesis by (blast dest: stableD)
  qed
qed

lemma stable_set_PC:
  "sets_pc (IR c) \<noteq> 0 \<Longrightarrow> stable (cycle_frame c) (\<lambda>s. (Inr (), s\<lparr>PC := h s\<rparr>))"
  by (simp add: stable_def cycle_frame_def)

lemma stable_JEQ:
  assumes "sets_pc (IR c) \<noteq> 0"
  shows "stable (cycle_frame c) JEQ"
proof -
  have eq: "JEQ = (\<lambda>s. if FL s AND FLAG_EQUAL = FLAG_EQUAL then JMP s
                    else (Inr (), s\<lparr>PC := PC s + 2\<rparr>))"
    by (rule ext) (simp add: JEQ_def)
  show ?thesis
    unfolding eq by (intro stable_cond stable_JMP stable_set_PC assms)
qed

lemma stable_JNE:
  assumes "sets_pc (IR c) \<noteq> 0"
  shows "stable (cycle_frame c) JNE"
proof -
  have eq: "JNE = (\<lambda>s. if FL s AND FLAG_EQUAL = 0 then JMP s
                    else (Inr (), s\<lparr>PC := PC s + 2\<rparr>))"
    by (rule ext) (simp add: JNE_def)
  show ?thesis
    unfolding eq by (intro stable_cond stable_JMP stable_set_PC assms)
qed

lemma sets_pc_jumps: "sets_pc 0x54 = 1" "sets_pc 0x55 = 1" "sets_pc 0x56 = 1"
  by (simp_all add: sets_pc_def)

lemma stable_handler:
  assumes "dispatch_table (IR c) = Some h"
  shows "stable (cycle_frame c) (call0 h) \<and> stable (cycle_frame c) (call2 h a b)"
proof -
  have err: "stable P (\<lambda>s. (Inl e, s))" for P :: "cpu \<Rightarrow> bool" and e :: exn
    by (simp add: stable_def)
  have m0: "stable (cycle_frame c) f \<Longrightarrow>
      stable (cycle_frame c) (call0 (Method0 f)) \<and> stable (cycle_frame c) (call2 (Method0 f) a b)" for f
    by (simp add: stable_def call0_def call2_def)
  have m2: "stable (cycle_frame c) (f a b) \<Longrightarrow>
      stable (cycle_frame c) (call0 (Method2 f)) \<and> stable (cycle_frame c) (call2 (Method2 f) a b)" for f
    by (simp add: stable_def call0_def call2_def)
  show ?thesis
    using assms
    by (auto simp: dispatch_table_def sets_pc_jumps split: if_splits
        intro!: m0 m2 stable_HLT stable_PRN stable_LDI stable_PUSH stable_POP stable_MUL
          stable_CMP stable_JMP stable_JEQ stable_JNE)
qed

lemma stable_try_except_KeyError:
  assumes "stable P body" and "stable P handler"
  shows "stable P (try_except_KeyError body handler)"
  unfolding stable_def
proof (intro allI impI)
  fix s r s' assume P: "P s" and run: "try_except_KeyError body handler s = (r, s')"
  obtain r1 s1 where b: "body s = (r1, s1)" by (cases "body s")
  then have P1: "P s1" using assms(1) P by (rule_tac stableD)
  show "P s'"
  proof (cases "\<exists>e. r1 = Inl e \<and> is_KeyError e")
    case True
    with b run have "handler s1 = (r, s')" by (auto simp: try_except_KeyError_def)
    with assms(2) P1 show ?thesis by (rule_tac stableD)
  next
    case False
    with b run have "s' = s1" by (cases r1) (auto simp: try_except_KeyError_def)
    with P1 show ?thesis by simp
  qed
qed

lemma stable_dispatch:
  "stable (cycle_frame c) (and_then (\<lambda>s. lookup (IR s) s) call0)"
  "stable (cycle_frame c) (and_then (\<lambda>s. lookup (IR s) s) (\<lambda>h. call2 h a b))"
proof -
  have "cycle_frame c t'"
    if "cycle_frame c t" and "and_then (\<lambda>s. lookup (IR s) s) call0 t = (r, t')" for t r t'
  proof (cases "dispatch_table (IR c)")
    case None
    with that show ?thesis by (simp add: and_then_def lookup_def cycle_frame_def)
  next
    case (Some h)
    with that have "call0 h t = (r, t')" by (simp add: and_then_def lookup_def cycle_frame_def)
    with stable_handler [OF Some] that(1) show ?thesis by (blast dest: stableD)
  qed
  then show "stable (cycle_frame c) (and_then (\<lambda>s. lookup (IR s) s) call0)"
    unfolding stable_def by blast
  have "cycle_frame c t'"
    if "cycle_frame c t" and "and_then (\<lambda>s. lookup (IR s) s) (\<lambda>h. call2 h a b) t = (r, t')"
    for t r t'
  proof (cases "dispatch_table (IR c)")
    case None
    with that show ?thesis by (simp add: and_then_def lookup_def cycle_frame_def)
  next
    case (Some h)
    with that have "call2 h a b t = (r, t')"
      by (simp add: and_then_def lookup_def cycle_frame_def)
    with stable_handler [OF Some] that(1) show ?thesis by (blast dest: stableD)
  qed
  then show "stable (cycle_frame c) (and_then (\<lambda>s. lookup (IR s) s) (\<lambda>h. call2 h a b))"
    unfolding stable_def by blast
qed

lemma stable_unknown:
  "stable (cycle_frame c) (and_then (\<lambda>s. print (l s) s) (\<lambda>_. HLT))"
  by (intro stable_intros)

lemma stable_alu: "stable (cycle_frame c) (alu op a b)"
  unfolding alu_def by (intro stable_try_except_KeyError stable_dispatch stable_unknown)

lemma stable_execute: "stable (cycle_frame c) execute"
proof -
  have alu: "stable (cycle_frame c)
      (and_then (\<lambda>s. ram_read (PC s + 1) s) (\<lambda>a.
       and_then (\<lambda>s. ram_read (PC s + 2) s) (\<lambda>b. alu op a b)))" for op
    by (intro stable_intros stable_alu)
  have other: "stable (cycle_frame c)
      (try_except_KeyError (and_then (\<lambda>s. lookup (IR s) s) call0)
         (and_then (\<lambda>s. print (l s) s) (\<lambda>_. HLT)))" for l
    by (intro stable_try_except_KeyError stable_dispatch stable_unknown)
  show ?thesis
    unfolding stable_def
  proof (intro allI impI)
    fix s r s' assume P: "cycle_frame c s" and run: "execute s = (r, s')"
    show "cycle_frame c s'"
    proof (cases "use_alu (IR s) = 0")
      case True
      let ?l = "\<lambda>s. ''Unknown instruction 0x'' @ format_02X (IR s) @
                     '' at address 0x'' @ format_02X (PC s)"
      from run True have "try_except_KeyError (and_then (\<lambda>s. lookup (IR s) s) call0)
         (and_then (\<lambda>s. print (?l s) s) (\<lambda>_. HLT)) s = (r, s')"
        by (simp add: execute_def)
      with other [of ?l] P show ?thesis by (blast dest: stableD)
    next
      case False
      with run have "and_then (\<lambda>s. ram_read (PC s + 1) s) (\<lambda>a.
         and_then (\<lambda>s. ram_read (PC s + 2) s) (\<lambda>b. alu (IR s) a b)) s = (r, s')"
        by (simp add: execute_def)
      with alu [of "IR s"] P show ?thesis by (blast dest: stableD)
    qed
  qed
qed

section \<open>The run loop\<close>

text \<open>The equations that evaluate the machine on a concrete program.\<close>

lemmas machine_defs =
  main_def run_def load_def CPU_init_def Memory_init_def clear_def
  run_cycle_def fetch_def execute_def advance_def alu_def
  and_then_def try_except_KeyError_def lookup_def call0_def call2_def dispatch_table_def
  ram_read_def ram_write_def gp_read_byte_def gp_write_byte_def get_SP_def set_SP_def
  read_byte_def write_byte_def write_byte_try_def is_TypeError_def is_KeyError_def
  HLT_def LDI_def PRN_def PUSH_def POP_def JMP_def JEQ_def JNE_def MUL_def CMP_def
  print_def num_ops_def use_alu_def sets_pc_def
  FLAG_RUNNING_def FLAG_EQUAL_def FLAG_LESS_def FLAG_GREATER_def
  format_02X_def zero_pad_def digit_char_def str_int_def

lemma num_ops_eq: "num_ops ir = drop_bit 6 ir AND 3"
  unfolding num_ops_def by (rule bit_eqI) (auto simp: bit_simps)

lemma sets_pc_eq: "sets_pc ir = (if bit ir 4 then 1 else 0)"
proof -
  have "sets_pc ir = drop_bit 4 ir AND 1"
    unfolding sets_pc_def by (rule bit_eqI) (auto simp: bit_simps)
  also have "\<dots> = (if bit ir 4 then 1 else 0)"
    by (simp add: and_one_eq bit_iff_odd_drop_bit mod_2_eq_odd)
  finally show ?thesis .
qed

text \<open>
  C1. A pass of the run loop that completes has set \<open>IR\<close> to the byte read at the old
  \<open>PC\<close>. If bit 4 of \<open>IR\<close> is clear, the new \<open>PC\<close> is the old one plus 1 plus
  the operand count \<open>(IR >> 6) & 0b11\<close>. If bit 4 is set, the machine after the pass is
  the one the execution of the instruction left: the loop does not advance \<open>PC\<close>.
\<close>

theorem run_cycle_advances:
  assumes "run_cycle s = (Inr (), s')"
  shows "read_byte (ram s) (PC s) = Inr (IR s') \<and>
         (\<not> bit (IR s') 4 \<longrightarrow> PC s' = PC s + 1 + (drop_bit 6 (IR s') AND 3)) \<and>
         (bit (IR s') 4 \<longrightarrow> execute (s\<lparr>IR := IR s'\<rparr>) = (Inr (), s'))"
proof -
  obtain ir where rd: "read_byte (ram s) (PC s) = Inr ir"
    using assms by (cases "read_byte (ram s) (PC s)")
      (simp_all add: run_cycle_def fetch_def and_then_def ram_read_def)
  let ?s1 = "s\<lparr>IR := ir\<rparr>"
  have f: "fetch s = (Inr (), ?s1)"
    using rd by (simp add: fetch_def and_then_def ram_read_def)
  obtain r2 s2 where ex: "execute ?s1 = (r2, s2)" by (cases "execute ?s1")
  have "cycle_frame ?s1 ?s1" by (simp add: cycle_frame_def)
  with stable_execute ex have fr: "cycle_frame ?s1 s2" by (blast dest: stableD)
  have cyc: "run_cycle s = (case r2 of Inl e \<Rightarrow> (Inl e, s2) | Inr _ \<Rightarrow> advance ir s2)"
    using f ex by (simp add: run_cycle_def and_then_def split: sum.splits)
  have r2: "r2 = Inr ()" using assms cyc by (cases r2) simp_all
  have adv: "advance ir s2 = (Inr (), s')" using assms cyc r2 by simp
  have ir2: "IR s2 = ir" using fr by (simp add: cycle_frame_def)
  have ir: "IR s' = ir"
  proof (cases "sets_pc ir = 0")
    case True
    with adv have "s' = s2\<lparr>PC := PC s2 + (1 + num_ops ir)\<rparr>" by (simp add: advance_def)
    with ir2 show ?thesis by simp
  next
    case False
    with adv have "s' = s2" by (simp add: advance_def)
    with ir2 show ?thesis by simp
  qed
  have c1: "read_byte (ram s) (PC s) = Inr (IR s')"
    using rd ir by simp
  have c2: "PC s' = PC s + 1 + (drop_bit 6 (IR s') AND 3)" if "\<not> bit (IR s') 4"
  proof -
    from that ir have z: "sets_pc ir = 0" by (simp add: sets_pc_eq)
    with fr have "PC s2 = PC s" by (simp add: cycle_frame_def)
    moreover from adv z have "s' = s2\<lparr>PC := PC s2 + (1 + num_ops ir)\<rparr>"
      by (simp add: advance_def)
    ultimately have "PC s' = PC s + 1 + num_ops ir" by simp
    with ir show ?thesis by (simp add: num_ops_eq)
  qed
  have c3: "execute (s\<lparr>IR := IR s'\<rparr>) = (Inr (), s')" if "bit (IR s') 4"
  proof -
    from that ir have "sets_pc ir \<noteq> 0" by (simp add: sets_pc_eq)
    with adv have "s' = s2" by (simp add: advance_def)
    with ex r2 ir show ?thesis by simp
  qed
  from c1 c2 c3 show ?thesis by blast
qed


theorem run_cycle_advances_witness:
  "fst (run_cycle (snd (load [0x82, 0, 42] CPU_init))) = Inr () \<and>
   IR (snd (run_cycle (snd (load [0x82, 0, 42] CPU_init)))) = 0x82 \<and>
   PC (snd (run_cycle (snd (load [0x82, 0, 42] CPU_init)))) = 3"
proof -
  let ?s = "snd (load [0x82, 0, 42] CPU_init)"
  let ?s' = "snd (run_cycle ?s)"
  have ok: "fst (run_cycle ?s) = Inr ()" by (simp add: machine_defs)
  then have r: "run_cycle ?s = (Inr (), ?s')" by (simp add: prod_eq_iff)
  have rd: "read_byte (ram ?s) (PC ?s) = Inr 0x82" by (simp add: machine_defs)
  have pc: "PC ?s = 0" by (simp add: machine_defs)
  from run_cycle_advances [OF r] rd have ir: "IR ?s' = 0x82" by simp
  have nb: "\<not> bit (0x82::int) 4" by simp
  have ops: "drop_bit 6 (0x82::int) AND 3 = 2" by simp
  from run_cycle_advances [OF r] ir nb ops pc have "PC ?s' = 3" by simp
  with ok ir show ?thesis by simp
qed

section \<open>The machine after \<open>__init__\<close>\<close>

lemma cpu_inv_CPU_init: "cpu_inv CPU_init"
  by (simp add: cpu_inv_def CPU_init_def Memory_inv_def Memory_init_def clear_def
      write_byte_def write_byte_try_def list_all_length nth_list_update)

lemma reg_CPU_init: "0 \<le> n \<Longrightarrow> n < 8 \<Longrightarrow> reg CPU_init n = (if n = 7 then 0xF4 else 0)"
  by (auto simp: reg_def CPU_init_def Memory_init_def clear_def
      write_byte_def write_byte_try_def nth_list_update)

lemma mem_CPU_init: "0 \<le> a \<Longrightarrow> a \<le> 255 \<Longrightarrow> mem CPU_init a = 0"
  by (simp add: mem_def CPU_init_def Memory_init_def clear_def)

lemma CPU_init_fields [simp]:
  "PC CPU_init = 0" "IR CPU_init = 0" "FL CPU_init = 0" "stdout CPU_init = []"
  by (simp_all add: CPU_init_def)

section \<open>The invariant is kept\<close>

text \<open>
  Every instruction, every pass of the run loop, \<open>load\<close> and \<open>run\<close> keep
  \<open>cpu_inv\<close>, whether they return or raise: it holds of every machine that the script
  at the end of the file can reach.
\<close>

lemma inv_gp_write_byte: "stable cpu_inv (gp_write_byte n v)"
  unfolding stable_def
proof (intro allI impI)
  fix s r s' assume inv: "cpu_inv s" and run: "gp_write_byte n v s = (r, s')"
  obtain r1 m where w: "write_byte (gp_registers s) n v = (r1, m)"
    by (cases "write_byte (gp_registers s) n v")
  with run have s': "s' = s\<lparr>gp_registers := m\<rparr>" by (simp add: gp_write_byte_def)
  from inv have "Memory_inv (gp_registers s)" by (simp add: cpu_inv_def)
  from Memory_inv_write_byte [OF this w] inv s' show "cpu_inv s'"
    by (simp add: cpu_inv_def)
qed

lemma inv_ram_write: "stable cpu_inv (ram_write a v)"
  unfolding stable_def
proof (intro allI impI)
  fix s r s' assume inv: "cpu_inv s" and run: "ram_write a v s = (r, s')"
  obtain r1 m where w: "write_byte (ram s) a v = (r1, m)"
    by (cases "write_byte (ram s) a v")
  with run have s': "s' = s\<lparr>ram := m\<rparr>" by (simp add: ram_write_def)
  from inv have "Memory_inv (ram s)" by (simp add: cpu_inv_def)
  from Memory_inv_write_byte [OF this w] inv s' show "cpu_inv s'"
    by (simp add: cpu_inv_def)
qed

lemma inv_print: "stable cpu_inv (\<lambda>s. print (l s) s)"
  by (simp add: stable_def print_def)

lemma inv_HLT: "stable cpu_inv HLT"
  by (simp add: stable_def HLT_def)

lemma inv_set_PC: "stable cpu_inv (\<lambda>s. (Inr (), s\<lparr>PC := h s\<rparr>))"
  by (simp add: stable_def)

lemmas inv_intros =
  stable_and_then stable_ram_read stable_ram_read' stable_gp_read_byte stable_get_SP
  inv_gp_write_byte inv_ram_write inv_print inv_HLT stable_cond inv_set_PC

lemma inv_LDI: "stable cpu_inv LDI"
  unfolding LDI_def by (intro inv_intros)

lemma inv_PRN: "stable cpu_inv PRN"
  unfolding PRN_def by (intro inv_intros)

lemma inv_PUSH: "stable cpu_inv PUSH"
  unfolding PUSH_def set_SP_def by (intro inv_intros)

lemma inv_POP: "stable cpu_inv POP"
  unfolding POP_def set_SP_def by (intro inv_intros)

lemma inv_MUL: "stable cpu_inv (MUL a b)"
  unfolding MUL_def Let_def by (intro inv_intros)

lemma inv_CMP: "stable cpu_inv (CMP a b)"
  unfolding CMP_def
  by (intro inv_intros) (simp add: stable_def Let_def)

lemma inv_JMP: "stable cpu_inv JMP"
  unfolding JMP_def by (intro inv_intros)

lemma inv_JEQ: "stable cpu_inv JEQ"
proof -
  have eq: "JEQ = (\<lambda>s. if FL s AND FLAG_EQUAL = FLAG_EQUAL then JMP s
                        else (Inr (), s\<lparr>PC := PC s + 2\<rparr>))"
    by (rule ext) (simp add: JEQ_def)
  show ?thesis
    unfolding eq by (intro stable_cond inv_JMP inv_set_PC)
qed

lemma inv_JNE: "stable cpu_inv JNE"
proof -
  have eq: "JNE = (\<lambda>s. if FL s AND FLAG_EQUAL = 0 then JMP s
                        else (Inr (), s\<lparr>PC := PC s + 2\<rparr>))"
    by (rule ext) (simp add: JNE_def)
  show ?thesis
    unfolding eq by (intro stable_cond inv_JMP inv_set_PC)
qed

lemma inv_handler:
  assumes "dispatch_table ir = Some h"
  shows "stable cpu_inv (call0 h) \<and> stable cpu_inv (call2 h a b)"
proof -
  have m0: "stable cpu_inv f \<Longrightarrow>
      stable cpu_inv (call0 (Method0 f)) \<and> stable cpu_inv (call2 (Method0 f) a b)" for f
    by (simp add: stable_def call0_def call2_def)
  have m2: "stable cpu_inv (f a b) \<Longrightarrow>
      stable cpu_inv (call0 (Method2 f)) \<and> stable cpu_inv (call2 (Method2 f) a b)" for f
    by (simp add: stable_def call0_def call2_def)
  show ?thesis
    using assms
    by (auto simp: dispatch_table_def split: if_splits
        intro!: m0 m2 inv_HLT inv_PRN inv_LDI inv_PUSH inv_POP inv_MUL inv_CMP inv_JMP
          inv_JEQ inv_JNE)
qed

lemma inv_dispatch:
  "stable cpu_inv (and_then (\<lambda>s. lookup (IR s) s) call0)"
  "stable cpu_inv (and_then (\<lambda>s. lookup (IR s) s) (\<lambda>h. call2 h a b))"
proof -
  have "cpu_inv t'"
    if "cpu_inv t" and "and_then (\<lambda>s. lookup (IR s) s) call0 t = (r, t')" for t r t'
  proof (cases "dispatch_table (IR t)")
    case None
    with that show ?thesis by (simp add: and_then_def lookup_def)
  next
    case (Some h)
    with that have "call0 h t = (r, t')" by (simp add: and_then_def lookup_def)
    with inv_handler [OF Some] that(1) show ?thesis by (blast dest: stableD)
  qed
  then show "stable cpu_inv (and_then (\<lambda>s. lookup (IR s) s) call0)"
    unfolding stable_def by blast
  have "cpu_inv t'"
    if "cpu_inv t" and "and_then (\<lambda>s. lookup (IR s) s) (\<lambda>h. call2 h a b) t = (r, t')"
    for t r t'
  proof (cases "dispatch_table (IR t)")
    case None
    with that show ?thesis by (simp add: and_then_def lookup_def)
  next
    case (Some h)
    with that have "call2 h a b t = (r, t')" by (simp add: and_then_def lookup_def)
    with inv_handler [OF Some] that(1) show ?thesis by (blast dest: stableD)
  qed
  then show "stable cpu_inv (and_then (\<lambda>s. lookup (IR s) s) (\<lambda>h. call2 h a b))"
    unfolding stable_def by blast
qed

lemma inv_unknown: "stable cpu_inv (and_then (\<lambda>s. print (l s) s) (\<lambda>_. HLT))"
  by (intro inv_intros)

lemma inv_alu: "stable cpu_inv (alu op a b)"
  unfolding alu_def by (intro stable_try_except_KeyError inv_dispatch inv_unknown)

lemma inv_execute: "stable cpu_inv execute"
proof -
  have alu: "stable cpu_inv
      (and_then (\<lambda>s. ram_read (PC s + 1) s) (\<lambda>a.
       and_then (\<lambda>s. ram_read (PC s + 2) s) (\<lambda>b. alu op a b)))" for op
    by (intro inv_intros inv_alu)
  have other: "stable cpu_inv
      (try_except_KeyError (and_then (\<lambda>s. lookup (IR s) s) call0)
         (and_then (\<lambda>s. print (l s) s) (\<lambda>_. HLT)))" for l
    by (intro stable_try_except_KeyError inv_dispatch inv_unknown)
  show ?thesis
    unfolding stable_def
  proof (intro allI impI)
    fix s r s' assume P: "cpu_inv s" and run: "execute s = (r, s')"
    show "cpu_inv s'"
    proof (cases "use_alu (IR s) = 0")
      case True
      let ?l = "\<lambda>s. ''Unknown instruction 0x'' @ format_02X (IR s) @
                     '' at address 0x'' @ format_02X (PC s)"
      from run True have "try_except_KeyError (and_then (\<lambda>s. lookup (IR s) s) call0)
         (and_then (\<lambda>s. print (?l s) s) (\<lambda>_. HLT)) s = (r, s')"
        by (simp add: execute_def)
      with other [of ?l] P show ?thesis by (blast dest: stableD)
    next
      case False
      with run have "and_then (\<lambda>s. ram_read (PC s + 1) s) (\<lambda>a.
         and_then (\<lambda>s. ram_read (PC s + 2) s) (\<lambda>b. alu (IR s) a b)) s = (r, s')"
        by (simp add: execute_def)
      with alu [of "IR s"] P show ?thesis by (blast dest: stableD)
    qed
  qed
qed

lemma inv_run_cycle: "stable cpu_inv run_cycle"
proof -
  have f: "stable cpu_inv fetch"
    unfolding fetch_def by (intro inv_intros) (simp add: stable_def)
  have a: "stable cpu_inv (advance ir)" for ir
    by (simp add: stable_def advance_def)
  have "stable cpu_inv (and_then execute (\<lambda>_. advance ir))" for ir
    by (intro stable_and_then inv_execute a)
  then have "stable cpu_inv (\<lambda>s. and_then execute (\<lambda>_. advance (IR s)) s)"
    unfolding stable_def by blast
  with f show ?thesis
    unfolding run_cycle_def by (intro stable_and_then)
qed

lemma cpu_inv_load_loop:
  "cpu_inv s \<Longrightarrow> load_loop ls8 address s = (r, s') \<Longrightarrow> cpu_inv s'"
proof (induction ls8 arbitrary: address s)
  case Nil
  then show ?case by simp
next
  case (Cons data rest)
  obtain r1 s1 where w: "ram_write address (PyInt data) s = (r1, s1)"
    by (cases "ram_write address (PyInt data) s")
  with inv_ram_write Cons.prems(1) have inv1: "cpu_inv s1" by (blast dest: stableD)
  show ?case
  proof (cases r1)
    case (Inl e)
    with w Cons.prems(2) inv1 show ?thesis by simp
  next
    case (Inr u)
    with w Cons.prems(2) have "load_loop rest (address + 1) s1 = (r, s')" by simp
    with Cons.IH inv1 show ?thesis by blast
  qed
qed

lemma cpu_inv_load: "cpu_inv s \<Longrightarrow> load ls8 s = (r, s') \<Longrightarrow> cpu_inv s'"
proof -
  assume inv: "cpu_inv s" and l: "load ls8 s = (r, s')"
  have "cpu_inv (s\<lparr>ram := clear (ram s)\<rparr>)"
    using inv by (simp add: cpu_inv_def clear_def Memory_inv_def list_all_iff)
  with l show ?thesis
    unfolding load_def by (rule_tac cpu_inv_load_loop)
qed

lemma cpu_inv_run_loop:
  assumes "run_loop s = Some y" and "cpu_inv s"
  shows "cpu_inv (snd y)"
proof -
  have "cpu_inv s \<longrightarrow> cpu_inv (snd y)"
  proof (rule run_loop.raw_induct
      [where P = "\<lambda>s y. cpu_inv s \<longrightarrow> cpu_inv (snd y)", OF _ assms(1)])
    fix loop :: "cpu \<Rightarrow> ((exn + unit) \<times> cpu) option" and s y
    assume IH: "\<And>x y. loop x = Some y \<Longrightarrow> cpu_inv x \<longrightarrow> cpu_inv (snd y)"
      and body: "(if FL s AND FLAG_RUNNING = FLAG_RUNNING
          then case run_cycle s of (Inl e, s') \<Rightarrow> Some (Inl e, s')
               | (Inr x, s') \<Rightarrow> loop s'
          else Some (Inr (), s)) = Some y"
    show "cpu_inv s \<longrightarrow> cpu_inv (snd y)"
    proof
      assume inv: "cpu_inv s"
      show "cpu_inv (snd y)"
      proof (cases "FL s AND FLAG_RUNNING = FLAG_RUNNING")
        case False
        with body have "y = (Inr (), s)" by simp
        with inv show ?thesis by simp
      next
        case True
        obtain r1 s1 where c: "run_cycle s = (r1, s1)" by (cases "run_cycle s")
        with inv_run_cycle inv have inv1: "cpu_inv s1" by (blast dest: stableD)
        show ?thesis
        proof (cases r1)
          case (Inl e)
          with True c body have "y = (Inl e, s1)" by simp
          with inv1 show ?thesis by simp
        next
          case (Inr u)
          with True c body have "loop s1 = Some y" by simp
          with IH inv1 show ?thesis by blast
        qed
      qed
    qed
  qed
  with assms(2) show ?thesis by simp
qed

lemma cpu_inv_main: "main ls8 = Some (r, s') \<Longrightarrow> cpu_inv s'"
proof -
  assume m: "main ls8 = Some (r, s')"
  obtain r0 s0 where l: "load ls8 CPU_init = (r0, s0)" by (cases "load ls8 CPU_init")
  with cpu_inv_CPU_init have inv0: "cpu_inv s0" by (rule_tac cpu_inv_load)
  show ?thesis
  proof (cases r0)
    case (Inl e)
    with m l inv0 show ?thesis by (simp add: main_def)
  next
    case (Inr u)
    with m l have "run_loop (s0\<lparr>FL := FL s0 OR FLAG_RUNNING\<rparr>) = Some (r, s')"
      by (simp add: main_def run_def)
    moreover have "cpu_inv (s0\<lparr>FL := FL s0 OR FLAG_RUNNING\<rparr>)" using inv0 by simp
    ultimately have "cpu_inv (snd (r, s'))" by (rule cpu_inv_run_loop)
    then show ?thesis by simp
  qed
qed

text \<open>
  The program \<open>LDI R0,8; LDI R1,9; MUL R0,R1; PRN R0; HLT\<close> prints 72 and halts.
\<close>

lemma multiply_program:
  "map_option fst (main [0x82, 0, 8, 0x82, 1, 9, 0xA2, 0, 1, 0x47, 0, 0x01]) = Some (Inr ()) \<and>
   map_option (stdout \<circ> snd) (main [0x82, 0, 8, 0x82, 1, 9, 0xA2, 0, 1, 0x47, 0, 0x01]) =
     Some [''72''] \<and>
   map_option (FL \<circ> snd) (main [0x82, 0, 8, 0x82, 1, 9, 0xA2, 0, 1, 0x47, 0, 0x01]) = Some 0"
  by (simp add: machine_defs run_loop.simps)

section \<open>Instructions\<close>

text \<open>
  C4. With two valid register numbers, \<open>CMP\<close> returns normally and changes nothing
  but \<open>FL\<close>; afterwards EQUAL is set iff the two registers are equal, LESS iff the
  first is less, GREATER iff it is greater, whatever the flags were before, so exactly one
  of the three is set; every other bit of \<open>FL\<close>, RUNNING among them, is as before.
\<close>

theorem CMP_flags:
  assumes "cpu_inv s" and "0 \<le> reg_a" and "reg_a < 8" and "0 \<le> reg_b" and "reg_b < 8"
  shows "\<exists>s'. CMP reg_a reg_b s = (Inr (), s') \<and> s' = s\<lparr>FL := FL s'\<rparr> \<and>
           (flag_set s' FLAG_EQUAL \<longleftrightarrow> reg s reg_a = reg s reg_b) \<and>
           (flag_set s' FLAG_LESS \<longleftrightarrow> reg s reg_a < reg s reg_b) \<and>
           (flag_set s' FLAG_GREATER \<longleftrightarrow> reg s reg_a > reg s reg_b) \<and>
           (flag_set s' FLAG_EQUAL \<and> \<not> flag_set s' FLAG_LESS \<and> \<not> flag_set s' FLAG_GREATER \<or>
            \<not> flag_set s' FLAG_EQUAL \<and> flag_set s' FLAG_LESS \<and> \<not> flag_set s' FLAG_GREATER \<or>
            \<not> flag_set s' FLAG_EQUAL \<and> \<not> flag_set s' FLAG_LESS \<and> flag_set s' FLAG_GREATER) \<and>
           (\<forall>n. n \<notin> {0, 1, 2} \<longrightarrow> bit (FL s') n = bit (FL s) n) \<and>
           (flag_set s' FLAG_RUNNING \<longleftrightarrow> flag_set s FLAG_RUNNING)"
proof -
  let ?a = "reg s reg_a" and ?b = "reg s reg_b"
  let ?f1 = "if ?a = ?b then FL s OR FLAG_EQUAL else FL s AND NOT FLAG_EQUAL"
  let ?f2 = "if ?a < ?b then ?f1 OR FLAG_LESS else ?f1 AND NOT FLAG_LESS"
  let ?f3 = "if ?a > ?b then ?f2 OR FLAG_GREATER else ?f2 AND NOT FLAG_GREATER"
  have run: "CMP reg_a reg_b s = (Inr (), s\<lparr>FL := ?f3\<rparr>)"
    using assms by (simp add: CMP_def and_then_def gp_read_byte_ok Let_def)
  have bits: "bit ?f3 n \<longleftrightarrow>
      (if n = 0 then ?a = ?b else if n = 2 then ?a < ?b else if n = 1 then ?a > ?b
       else bit (FL s) n)" for n
    by (simp add: bit_set_flag bit_clear_flag)
  show ?thesis
    unfolding run by (auto simp: flag_set_iff_bit bits)
qed



theorem CMP_flags_witness:
  "cpu_inv ((set_reg CPU_init 1 5)\<lparr>FL := 0x83\<rparr>) \<and>
   (\<exists>s'. CMP 0 1 ((set_reg CPU_init 1 5)\<lparr>FL := 0x83\<rparr>) = (Inr (), s') \<and>
      flag_set s' FLAG_LESS \<and> \<not> flag_set s' FLAG_EQUAL \<and> \<not> flag_set s' FLAG_GREATER \<and>
      flag_set s' FLAG_RUNNING)"
proof -
  let ?s = "(set_reg CPU_init 1 5)\<lparr>FL := 0x83\<rparr>"
  have inv: "cpu_inv ?s" by (simp add: cpu_inv_set_reg cpu_inv_CPU_init)
  have r: "reg ?s 0 = 0" "reg ?s 1 = 5"
    by (simp_all add: reg_set_reg cpu_inv_CPU_init reg_CPU_init)
  have run: "flag_set ?s FLAG_RUNNING"
    by (simp add: flag_set_def FLAG_RUNNING_def)
  from CMP_flags [OF inv, of 0 1] inv r run show ?thesis by auto
qed

text \<open>
  C5. \<open>JEQ\<close> with EQUAL clear, and \<open>JNE\<close> with EQUAL set, add 2 to \<open>PC\<close> and
  change nothing else, in every machine. When the byte at \<open>PC + 1\<close> names a register,
  \<open>JEQ\<close> with EQUAL set, and \<open>JNE\<close> with EQUAL clear, assign the value of that
  register to \<open>PC\<close>.
\<close>

theorem JEQ_JNE_branch:
  "(\<not> flag_set s FLAG_EQUAL \<longrightarrow> JEQ s = (Inr (), s\<lparr>PC := PC s + 2\<rparr>)) \<and>
   (flag_set s FLAG_EQUAL \<longrightarrow> JNE s = (Inr (), s\<lparr>PC := PC s + 2\<rparr>)) \<and>
   (cpu_inv s \<and> 0 \<le> PC s + 1 \<and> PC s + 1 \<le> 255 \<and> mem s (PC s + 1) < 8 \<longrightarrow>
      (flag_set s FLAG_EQUAL \<longrightarrow> JEQ s = (Inr (), s\<lparr>PC := reg s (mem s (PC s + 1))\<rparr>)) \<and>
      (\<not> flag_set s FLAG_EQUAL \<longrightarrow> JNE s = (Inr (), s\<lparr>PC := reg s (mem s (PC s + 1))\<rparr>)))"
proof (intro conjI impI)
  assume "\<not> flag_set s FLAG_EQUAL"
  then show "JEQ s = (Inr (), s\<lparr>PC := PC s + 2\<rparr>)"
    by (simp add: JEQ_def flag_set_def)
next
  assume "flag_set s FLAG_EQUAL"
  then show "JNE s = (Inr (), s\<lparr>PC := PC s + 2\<rparr>)"
    by (simp add: JNE_def equal_flag_cases)
next
  assume "cpu_inv s \<and> 0 \<le> PC s + 1 \<and> PC s + 1 \<le> 255 \<and> mem s (PC s + 1) < 8"
    and "flag_set s FLAG_EQUAL"
  then show "JEQ s = (Inr (), s\<lparr>PC := reg s (mem s (PC s + 1))\<rparr>)"
    by (simp add: JEQ_def flag_set_def JMP_ok)
next
  assume "cpu_inv s \<and> 0 \<le> PC s + 1 \<and> PC s + 1 \<le> 255 \<and> mem s (PC s + 1) < 8"
    and "\<not> flag_set s FLAG_EQUAL"
  then show "JNE s = (Inr (), s\<lparr>PC := reg s (mem s (PC s + 1))\<rparr>)"
    by (simp add: JNE_def equal_flag_cases JMP_ok)
qed

theorem JEQ_JNE_branch_witness:
  "JEQ ((set_reg CPU_init 0 9)\<lparr>FL := 1\<rparr>) = (Inr (), (set_reg CPU_init 0 9)\<lparr>FL := 1, PC := 9\<rparr>) \<and>
   JNE ((set_reg CPU_init 0 9)\<lparr>FL := 1\<rparr>) = (Inr (), (set_reg CPU_init 0 9)\<lparr>FL := 1, PC := 2\<rparr>) \<and>
   JEQ ((set_reg CPU_init 0 9)\<lparr>FL := 4\<rparr>) = (Inr (), (set_reg CPU_init 0 9)\<lparr>FL := 4, PC := 2\<rparr>) \<and>
   JNE ((set_reg CPU_init 0 9)\<lparr>FL := 4\<rparr>) = (Inr (), (set_reg CPU_init 0 9)\<lparr>FL := 4, PC := 9\<rparr>)"
proof -
  let ?s = "set_reg CPU_init 0 9"
  have inv: "cpu_inv (?s\<lparr>FL := x\<rparr>)" for x
    by (simp add: cpu_inv_set_reg cpu_inv_CPU_init)
  have m: "mem (?s\<lparr>FL := x\<rparr>) 1 = 0" for x by (simp add: mem_CPU_init)
  have r: "reg (?s\<lparr>FL := x\<rparr>) 0 = 9" for x
    by (simp add: reg_set_reg cpu_inv_CPU_init)
  have f: "flag_set (?s\<lparr>FL := 1\<rparr>) FLAG_EQUAL" "\<not> flag_set (?s\<lparr>FL := 4\<rparr>) FLAG_EQUAL"
    by (simp_all add: flag_set_def FLAG_EQUAL_def)
  show ?thesis
    using JEQ_JNE_branch [of "?s\<lparr>FL := 1\<rparr>"] JEQ_JNE_branch [of "?s\<lparr>FL := 4\<rparr>"] inv m r f
    by simp
qed

text \<open>
  C6. With two valid register numbers, \<open>MUL\<close> raises the \<open>TypeError\<close> of
  \<open>write_byte\<close> and leaves the machine as it was when the product of the two
  registers exceeds 255; otherwise it stores the product in the first register. The
  product is never negative.
\<close>

theorem MUL_overflow:
  assumes "cpu_inv s" and "0 \<le> reg_a" and "reg_a < 8" and "0 \<le> reg_b" and "reg_b < 8"
  shows "(255 < reg s reg_a * reg s reg_b \<longrightarrow>
            MUL reg_a reg_b s = (Inl (TypeError ''Data must be an 8-bit number''), s)) \<and>
         (reg s reg_a * reg s reg_b \<le> 255 \<longrightarrow>
            MUL reg_a reg_b s = (Inr (), set_reg s reg_a (reg s reg_a * reg s reg_b))) \<and>
         0 \<le> reg s reg_a * reg s reg_b"
proof -
  have nn: "0 \<le> reg s reg_a * reg s reg_b"
    using assms reg_range [of s reg_a] reg_range [of s reg_b] by simp
  show ?thesis
    using assms nn
    by (simp add: MUL_def and_then_def gp_read_byte_ok gp_write_byte_ok gp_write_byte_bad)
qed

theorem MUL_overflow_witness:
  "MUL 0 1 (set_reg (set_reg CPU_init 0 16) 1 16) =
     (Inl (TypeError ''Data must be an 8-bit number''), set_reg (set_reg CPU_init 0 16) 1 16) \<and>
   MUL 0 1 (set_reg (set_reg CPU_init 0 8) 1 9) =
     (Inr (), set_reg (set_reg (set_reg CPU_init 0 8) 1 9) 0 72)"
proof -
  have inv: "cpu_inv (set_reg (set_reg CPU_init 0 x) 1 y)"
    if "0 \<le> x" "x \<le> 255" "0 \<le> y" "y \<le> 255" for x y
    using that by (simp add: cpu_inv_set_reg cpu_inv_CPU_init)
  have r: "reg (set_reg (set_reg CPU_init 0 x) 1 y) 0 = x \<and>
           reg (set_reg (set_reg CPU_init 0 x) 1 y) 1 = y"
    if "0 \<le> x" "x \<le> 255" for x y
    using that by (simp add: reg_set_reg cpu_inv_set_reg cpu_inv_CPU_init)
  show ?thesis
    using MUL_overflow [OF inv [of 16 16], of 0 1] MUL_overflow [OF inv [of 8 9], of 0 1]
      r [of 16 16] r [of 8 9]
    by simp
qed

text \<open>
  C10. When the operand byte of \<open>POP\<close> is 7 and the byte \<open>p\<close> at the top of the
  stack is below 255, \<open>POP\<close> leaves \<open>p + 1\<close> in register 7: the increment of the
  stack pointer overwrites the popped value.
\<close>

theorem POP_into_SP:
  assumes "cpu_inv s" and "0 \<le> PC s + 1" and "PC s + 1 \<le> 255" and "mem s (PC s + 1) = 7"
    and "mem s (reg s 7) < 255"
  shows "POP s = (Inr (), set_reg s 7 (mem s (reg s 7) + 1)) \<and>
         reg (set_reg s 7 (mem s (reg s 7) + 1)) 7 = mem s (reg s 7) + 1"
proof -
  let ?sp = "reg s 7" and ?p = "mem s (reg s 7)"
  have sp: "0 \<le> ?sp \<and> ?sp \<le> 255" using assms(1) reg_range [of s 7] by simp
  then have p: "0 \<le> ?p \<and> ?p \<le> 255" using assms(1) mem_range by blast
  let ?s1 = "set_reg s 7 ?p"
  have inv1: "cpu_inv ?s1" using assms(1) p by (simp add: cpu_inv_set_reg)
  have r1: "reg ?s1 7 = ?p" using assms(1) by (simp add: reg_set_reg)
  have twice: "set_reg ?s1 7 (?p + 1) = set_reg s 7 (?p + 1)"
    by (simp add: set_reg_def)
  have "POP s = (Inr (), set_reg ?s1 7 (?p + 1))"
    using assms sp p inv1 r1
    by (simp add: POP_def and_then_def get_SP_def set_SP_def ram_read_ok gp_read_byte_ok
        gp_write_byte_ok)
  then show ?thesis
    using assms(1) by (simp add: twice reg_set_reg)
qed




theorem POP_into_SP_witness:
  "POP (set_mem (set_mem CPU_init 1 7) 0xF4 42) =
     (Inr (), set_reg (set_mem (set_mem CPU_init 1 7) 0xF4 42) 7 43) \<and>
   reg (set_reg (set_mem (set_mem CPU_init 1 7) 0xF4 42) 7 43) 7 = 43"
proof -
  let ?s = "set_mem (set_mem CPU_init 1 7) 0xF4 42"
  have inv1: "cpu_inv (set_mem CPU_init 1 7)"
    by (simp add: cpu_inv_set_mem cpu_inv_CPU_init)
  then have inv: "cpu_inv ?s" by (simp add: cpu_inv_set_mem)
  have sp: "reg ?s 7 = 0xF4" by (simp add: reg_CPU_init)
  have m: "mem ?s 1 = 7" "mem ?s 0xF4 = 42"
    using inv1 by (simp_all add: mem_set_mem cpu_inv_CPU_init)
  show ?thesis
    using POP_into_SP [OF inv] sp m by simp
qed

section \<open>The stack\<close>

lemma fetch_ok:
  "cpu_inv s \<Longrightarrow> 0 \<le> PC s \<Longrightarrow> PC s \<le> 255 \<Longrightarrow> fetch s = (Inr (), s\<lparr>IR := mem s (PC s)\<rparr>)"
  by (simp add: fetch_def and_then_def ram_read_ok)

lemma PUSH_ok:
  assumes "cpu_inv s" and "1 \<le> reg s 7"
    and "0 \<le> PC s + 1" and "PC s + 1 \<le> 255" and "mem s (PC s + 1) < 8"
  shows "PUSH s =
    (Inr (), set_mem (set_reg s 7 (reg s 7 - 1)) (reg s 7 - 1)
               (reg (set_reg s 7 (reg s 7 - 1)) (mem s (PC s + 1))))"
proof -
  let ?sp = "reg s 7" and ?r = "mem s (PC s + 1)"
  let ?s1 = "set_reg s 7 (?sp - 1)"
  have sp: "?sp \<le> 255" using assms(1) reg_range [of s 7] by simp
  have r: "0 \<le> ?r" using assms mem_range by blast
  have inv1: "cpu_inv ?s1" using assms sp by (simp add: cpu_inv_set_reg)
  have sp1: "reg ?s1 7 = ?sp - 1" using assms(1) by (simp add: reg_set_reg)
  have d: "0 \<le> reg ?s1 ?r \<and> reg ?s1 ?r \<le> 255"
    using inv1 r assms(5) by (simp add: reg_range)
  show ?thesis
    using assms sp r inv1 sp1 d
    by (simp add: PUSH_def and_then_def get_SP_def set_SP_def gp_read_byte_ok gp_write_byte_ok
        ram_read_ok ram_write_ok)
qed

lemma PUSH_underflow:
  assumes "cpu_inv s" and "reg s 7 = 0"
  shows "PUSH s = (Inl (TypeError ''Data must be an 8-bit number''), s)"
  using assms
  by (simp add: PUSH_def and_then_def get_SP_def set_SP_def gp_read_byte_ok gp_write_byte_bad)

lemma POP_cases:
  assumes "cpu_inv s" and "0 \<le> PC s + 1" and "PC s + 1 \<le> 255" and "mem s (PC s + 1) < 8"
  shows "POP s =
    (let s1 = set_reg s (mem s (PC s + 1)) (mem s (reg s 7))
     in if reg s1 7 < 255 then (Inr (), set_reg s1 7 (reg s1 7 + 1))
        else (Inl (TypeError ''Data must be an 8-bit number''), s1))"
proof -
  let ?sp = "reg s 7" and ?r = "mem s (PC s + 1)"
  let ?p = "mem s ?sp"
  let ?s1 = "set_reg s ?r ?p"
  have sp: "0 \<le> ?sp \<and> ?sp \<le> 255" using assms(1) reg_range [of s 7] by simp
  have r: "0 \<le> ?r" using assms mem_range by blast
  have p: "0 \<le> ?p \<and> ?p \<le> 255" using assms(1) sp mem_range by blast
  have inv1: "cpu_inv ?s1" using assms(1) p by (simp add: cpu_inv_set_reg)
  have sp1: "0 \<le> reg ?s1 7 \<and> reg ?s1 7 \<le> 255" using inv1 reg_range [of ?s1 7] by simp
  have w: "gp_write_byte ?r (PyInt ?p) s = (Inr (), ?s1)"
    using assms r p by (simp add: gp_write_byte_ok)
  have g: "get_SP ?s1 = (Inr (reg ?s1 7), ?s1)"
    using inv1 by (simp add: get_SP_def gp_read_byte_ok)
  have "POP s = set_SP (reg ?s1 7 + 1) ?s1"
    using assms sp w g
    by (simp add: POP_def and_then_def get_SP_def ram_read_ok gp_read_byte_ok)
  then show ?thesis
    using inv1 sp1 by (simp add: set_SP_def gp_write_byte_ok gp_write_byte_bad Let_def)
qed

text \<open>
  C7. The program \<open>LDI R0,42; PUSH R0; POP R1\<close>, loaded in a new machine and run,
  ends with 42 in register 1 and the stack pointer back at 0xF4. In general, where the
  stack pointer is at least 1, a \<open>PUSH\<close> of a register other than register 7 followed
  by a \<open>POP\<close> whose operand byte, read after the push, names a register other than
  register 7, leaves the pushed value in that register and the stack pointer as it was
  before the push. The same program with \<open>POP R7\<close> leaves 43 in register 7: neither
  the pushed 42 nor the old stack pointer. \<open>PUSH R7; POP R1\<close> leaves 0xF3 in register
  1, where register 7 held 0xF4. And \<open>LDI R7,10; LDI R0,42; PUSH R0; POP R1\<close> pushes
  onto the operand byte of its own \<open>POP\<close>, which then names register 42 and raises
  \<open>ReferenceError\<close>.
\<close>

theorem push_pop_into_SP_counterexample:
  "map_option fst (main [0x82, 0, 42, 0x45, 0, 0x46, 7]) = Some (Inr ()) \<and>
   final_reg 0 (main [0x82, 0, 42, 0x45, 0, 0x46, 7]) = Some 42 \<and>
   final_reg 7 (main [0x82, 0, 42, 0x45, 0, 0x46, 7]) = Some 43 \<and>
   reg CPU_init 7 = 0xF4 \<and>
   map_option fst (main [0x45, 7, 0x46, 1]) = Some (Inr ()) \<and>
   final_reg 1 (main [0x45, 7, 0x46, 1]) = Some 0xF3 \<and>
   final_reg 7 (main [0x45, 7, 0x46, 1]) = Some 0xF4 \<and>
   map_option fst (main [0x82, 7, 10, 0x82, 0, 42, 0x45, 0, 0x46, 1]) =
     Some (Inl (ReferenceError ''Out of bounds memory reference''))"
  by (simp add: machine_defs run_loop.simps final_reg_def reg_def)

theorem PUSH_then_POP:
  "(\<exists>s'. main [0x82, 0, 42, 0x45, 0, 0x46, 1] = Some (Inr (), s') \<and>
         reg s' 1 = 42 \<and> reg s' 7 = 0xF4 \<and> reg CPU_init 7 = 0xF4) \<and>
   (\<forall>s pc' r r'.
      cpu_inv s \<and> 1 \<le> reg s 7 \<and>
      0 \<le> PC s + 1 \<and> PC s + 1 \<le> 255 \<and> mem s (PC s + 1) = r \<and> r < 7 \<and>
      0 \<le> pc' + 1 \<and> pc' + 1 \<le> 255 \<and> mem (snd (PUSH s)) (pc' + 1) = r' \<and> r' < 7 \<longrightarrow>
      (\<exists>s1 s2. PUSH s = (Inr (), s1) \<and> POP (s1\<lparr>PC := pc'\<rparr>) = (Inr (), s2) \<and>
         reg s2 r' = reg s r \<and> reg s2 7 = reg s 7))"
proof (intro conjI allI impI)
  show "\<exists>s'. main [0x82, 0, 42, 0x45, 0, 0x46, 1] = Some (Inr (), s') \<and>
         reg s' 1 = 42 \<and> reg s' 7 = 0xF4 \<and> reg CPU_init 7 = 0xF4"
    by (simp add: machine_defs run_loop.simps reg_def)
next
  fix s pc' r r'
  assume h: "cpu_inv s \<and> 1 \<le> reg s 7 \<and>
      0 \<le> PC s + 1 \<and> PC s + 1 \<le> 255 \<and> mem s (PC s + 1) = r \<and> r < 7 \<and>
      0 \<le> pc' + 1 \<and> pc' + 1 \<le> 255 \<and> mem (snd (PUSH s)) (pc' + 1) = r' \<and> r' < 7"
  let ?sp = "reg s 7"
  let ?s0 = "set_reg s 7 (?sp - 1)"
  let ?s1 = "set_mem ?s0 (?sp - 1) (reg s r)"
  have inv: "cpu_inv s" using h by simp
  have sp: "1 \<le> ?sp \<and> ?sp \<le> 255" using h reg_range [of s 7] by simp
  have r: "0 \<le> r \<and> r < 7" using h mem_range [of s "PC s + 1"] by auto
  have v: "0 \<le> reg s r \<and> reg s r \<le> 255" using inv r by (simp add: reg_range)
  have inv0: "cpu_inv ?s0" using inv sp by (simp add: cpu_inv_set_reg)
  have "reg ?s0 r = reg s r" using inv r by (simp add: reg_set_reg)
  then have push: "PUSH s = (Inr (), ?s1)"
    using PUSH_ok [of s] h by simp
  have inv1: "cpu_inv ?s1" using inv0 v by (simp add: cpu_inv_set_mem)
  let ?t = "?s1\<lparr>PC := pc'\<rparr>"
  have invt: "cpu_inv ?t" using inv1 by simp
  have opnd: "mem ?t (PC ?t + 1) = r'" using h push by simp
  have r': "0 \<le> r' \<and> r' < 7" using h invt opnd mem_range [of ?t "pc' + 1"] by auto
  have spt: "reg ?t 7 = ?sp - 1" using inv by (simp add: reg_set_reg)
  have top: "mem ?t (?sp - 1) = reg s r" using inv0 sp by (simp add: mem_set_mem)
  let ?t1 = "set_reg ?t r' (reg s r)"
  have invt1: "cpu_inv ?t1" using invt v by (simp add: cpu_inv_set_reg)
  have spt1: "reg ?t1 7 = ?sp - 1" using invt r' spt by (simp add: reg_set_reg)
  let ?s2 = "set_reg ?t1 7 ?sp"
  have pop: "POP ?t = (Inr (), ?s2)"
    using POP_cases [of ?t] invt h opnd r' spt top spt1 sp by (simp add: Let_def)
  have "reg ?s2 r' = reg s r \<and> reg ?s2 7 = ?sp"
    using invt invt1 r' by (simp add: reg_set_reg)
  with push pop
  show "\<exists>s1 s2. PUSH s = (Inr (), s1) \<and> POP (s1\<lparr>PC := pc'\<rparr>) = (Inr (), s2) \<and>
         reg s2 r' = reg s r \<and> reg s2 7 = reg s 7"
    by blast
qed


theorem PUSH_then_POP_witness:
  "cpu_inv (set_reg (set_mem CPU_init 3 1) 0 42) \<and>
   (\<exists>s1 s2. PUSH (set_reg (set_mem CPU_init 3 1) 0 42) = (Inr (), s1) \<and>
      POP (s1\<lparr>PC := 2\<rparr>) = (Inr (), s2) \<and> reg s2 1 = 42 \<and> reg s2 7 = 0xF4)"
proof -
  let ?s = "set_reg (set_mem CPU_init 3 1) 0 42"
  have inv: "cpu_inv ?s"
    by (simp add: cpu_inv_set_reg cpu_inv_set_mem cpu_inv_CPU_init)
  have regs: "reg ?s 7 = 0xF4" "reg ?s 0 = 42"
    by (simp_all add: reg_set_reg cpu_inv_set_mem cpu_inv_CPU_init reg_CPU_init)
  have opnd: "mem ?s (PC ?s + 1) = 0"
    by (simp add: mem_set_mem cpu_inv_CPU_init mem_CPU_init)
  have opnd': "mem (snd (PUSH ?s)) (2 + 1) = 1"
    by (simp add: machine_defs set_reg_def set_mem_def mem_def reg_def)
  from PUSH_then_POP have
    "cpu_inv ?s \<and> 1 \<le> reg ?s 7 \<and>
      0 \<le> PC ?s + 1 \<and> PC ?s + 1 \<le> 255 \<and> mem ?s (PC ?s + 1) = 0 \<and> (0::int) < 7 \<and>
      (0::int) \<le> 2 + 1 \<and> (2::int) + 1 \<le> 255 \<and> mem (snd (PUSH ?s)) (2 + 1) = 1 \<and> (1::int) < 7 \<longrightarrow>
      (\<exists>s1 s2. PUSH ?s = (Inr (), s1) \<and> POP (s1\<lparr>PC := 2\<rparr>) = (Inr (), s2) \<and>
         reg s2 1 = reg ?s 0 \<and> reg s2 7 = reg ?s 7)"
    by blast
  with inv regs opnd opnd' show ?thesis by simp
qed

text \<open>
  C8. \<open>PUSH\<close> with the stack pointer at 0 raises the \<open>TypeError\<close> of \<open>write_byte\<close>,
  from the write of register 7, before it has changed anything. \<open>POP\<close> with a valid
  operand raises the same \<open>TypeError\<close>, after it has written the popped byte, exactly
  when register 7 holds 255 just before the increment: the stack pointer itself for a
  \<open>POP\<close> into another register, the popped byte for a \<open>POP\<close> into register 7. Neither
  is a \<open>ReferenceError\<close>. In every other machine with a valid operand, \<open>PUSH\<close> and
  \<open>POP\<close> return normally.
\<close>

theorem stack_pointer_counterexample:
  "map_option fst (main [0x82, 7, 0, 0x45, 0]) =
     Some (Inl (TypeError ''Data must be an 8-bit number'')) \<and>
   map_option fst (main [0x82, 7, 255, 0x46, 0]) =
     Some (Inl (TypeError ''Data must be an 8-bit number'')) \<and>
   map_option fst (main [0x82, 0, 255, 0x45, 0, 0x46, 7]) =
     Some (Inl (TypeError ''Data must be an 8-bit number''))"
  by (simp add: machine_defs run_loop.simps)

theorem stack_pointer_out_of_range:
  assumes "cpu_inv s"
  shows "(reg s 7 = 0 \<longrightarrow> PUSH s = (Inl (TypeError ''Data must be an 8-bit number''), s)) \<and>
         (1 \<le> reg s 7 \<and> 0 \<le> PC s + 1 \<and> PC s + 1 \<le> 255 \<and> mem s (PC s + 1) < 8 \<longrightarrow>
            fst (PUSH s) = Inr ()) \<and>
         (0 \<le> PC s + 1 \<and> PC s + 1 \<le> 255 \<and> mem s (PC s + 1) < 8 \<and>
          (if mem s (PC s + 1) = 7 then mem s (reg s 7) else reg s 7) = 255 \<longrightarrow>
            POP s = (Inl (TypeError ''Data must be an 8-bit number''),
                     set_reg s (mem s (PC s + 1)) (mem s (reg s 7)))) \<and>
         (0 \<le> PC s + 1 \<and> PC s + 1 \<le> 255 \<and> mem s (PC s + 1) < 8 \<and>
          (if mem s (PC s + 1) = 7 then mem s (reg s 7) else reg s 7) < 255 \<longrightarrow>
            fst (POP s) = Inr ())"
proof -
  let ?r = "mem s (PC s + 1)"
  let ?p = "mem s (reg s 7)"
  have before: "reg (set_reg s ?r ?p) 7 = (if ?r = 7 then ?p else reg s 7)"
    if "0 \<le> PC s + 1 \<and> PC s + 1 \<le> 255 \<and> ?r < 8"
  proof -
    from that have "0 \<le> ?r" using assms mem_range by blast
    with that assms show ?thesis by (simp add: reg_set_reg)
  qed
  show ?thesis
  proof (intro conjI impI)
    assume "reg s 7 = 0"
    with assms show "PUSH s = (Inl (TypeError ''Data must be an 8-bit number''), s)"
      by (rule PUSH_underflow)
  next
    assume "1 \<le> reg s 7 \<and> 0 \<le> PC s + 1 \<and> PC s + 1 \<le> 255 \<and> ?r < 8"
    then show "fst (PUSH s) = Inr ()"
      using PUSH_ok [of s] assms by simp
  next
    assume h: "0 \<le> PC s + 1 \<and> PC s + 1 \<le> 255 \<and> ?r < 8 \<and>
      (if ?r = 7 then ?p else reg s 7) = 255"
    then have "reg (set_reg s ?r ?p) 7 = 255" using before by simp
    then show "POP s = (Inl (TypeError ''Data must be an 8-bit number''), set_reg s ?r ?p)"
      using POP_cases [of s] assms h by (simp add: Let_def)
  next
    assume h: "0 \<le> PC s + 1 \<and> PC s + 1 \<le> 255 \<and> ?r < 8 \<and>
      (if ?r = 7 then ?p else reg s 7) < 255"
    then have "reg (set_reg s ?r ?p) 7 < 255" using before by simp
    then show "fst (POP s) = Inr ()"
      using POP_cases [of s] assms h by (simp add: Let_def)
  qed
qed

theorem stack_pointer_out_of_range_witness:
  "PUSH (set_reg CPU_init 7 0) =
     (Inl (TypeError ''Data must be an 8-bit number''), set_reg CPU_init 7 0) \<and>
   POP (set_reg CPU_init 7 255) =
     (Inl (TypeError ''Data must be an 8-bit number''), set_reg (set_reg CPU_init 7 255) 0 0) \<and>
   POP (set_mem (set_mem CPU_init 1 7) 0xF4 255) =
     (Inl (TypeError ''Data must be an 8-bit number''),
      set_reg (set_mem (set_mem CPU_init 1 7) 0xF4 255) 7 255) \<and>
   fst (PUSH CPU_init) = Inr () \<and> fst (POP CPU_init) = Inr () \<and>
   fst (POP (set_mem (set_mem CPU_init 1 7) 0xF4 42)) = Inr ()"
proof -
  have inv: "cpu_inv (set_reg CPU_init 7 x)" if "0 \<le> x" "x \<le> 255" for x
    using that by (simp add: cpu_inv_set_reg cpu_inv_CPU_init)
  have sp: "reg (set_reg CPU_init 7 x) 7 = x" for x
    by (simp add: reg_set_reg cpu_inv_CPU_init)
  have m: "mem CPU_init 1 = 0" "mem CPU_init 255 = 0" "mem CPU_init 0xF4 = 0"
    by (simp_all add: mem_CPU_init)
  have sp0: "reg CPU_init 7 = 0xF4" by (simp add: reg_CPU_init)
  have inv1: "cpu_inv (set_mem CPU_init 1 7)"
    by (simp add: cpu_inv_set_mem cpu_inv_CPU_init)
  have inv7: "cpu_inv (set_mem (set_mem CPU_init 1 7) 0xF4 x)" if "0 \<le> x" "x \<le> 255" for x
    using that inv1 by (simp add: cpu_inv_set_mem)
  have m7: "mem (set_mem (set_mem CPU_init 1 7) 0xF4 x) 1 = 7 \<and>
            mem (set_mem (set_mem CPU_init 1 7) 0xF4 x) 0xF4 = x" for x
    using inv1 by (simp add: mem_set_mem cpu_inv_CPU_init)
  show ?thesis
    using stack_pointer_out_of_range [OF inv [of 0]] stack_pointer_out_of_range [OF inv [of 255]]
      stack_pointer_out_of_range [OF cpu_inv_CPU_init]
      stack_pointer_out_of_range [OF inv7 [of 255]] stack_pointer_out_of_range [OF inv7 [of 42]]
      sp [of 0] sp [of 255] m sp0 m7 [of 255] m7 [of 42]
    by simp
qed

section \<open>Unknown opcodes\<close>

lemma execute_unknown:
  assumes "use_alu (IR s) = 0" and "dispatch_table (IR s) = None"
  shows "execute s =
    (Inr (), s\<lparr>stdout := stdout s @ [''Unknown instruction 0x'' @ format_02X (IR s) @
                                       '' at address 0x'' @ format_02X (PC s)],
               FL := FL s AND NOT FLAG_RUNNING\<rparr>)"
  using assms
  by (simp add: execute_def try_except_KeyError_def and_then_def lookup_def is_KeyError_def
      print_def HLT_def)

lemma execute_unknown_alu:
  assumes "cpu_inv s" and "use_alu (IR s) \<noteq> 0" and "dispatch_table (IR s) = None"
    and "0 \<le> PC s + 1" and "PC s + 2 \<le> 255"
  shows "execute s =
    (Inr (), s\<lparr>stdout := stdout s @ [''Unknown ALU instruction 0x'' @ format_02X (IR s) @
                                       '' at address 0x'' @ format_02X (PC s)],
               FL := FL s AND NOT FLAG_RUNNING\<rparr>)"
  using assms
  by (simp add: execute_def alu_def try_except_KeyError_def and_then_def lookup_def
      is_KeyError_def print_def HLT_def ram_read_ok)

lemma execute_alu_out_of_bounds:
  assumes "cpu_inv s" and "use_alu (IR s) \<noteq> 0" and "254 \<le> PC s"
  shows "execute s = (Inl (ReferenceError ''Out of bounds memory reference''), s)"
proof (cases "PC s = 254")
  case True
  then show ?thesis
    using assms
    by (simp add: execute_def and_then_def ram_read_ok ram_read_out_of_bounds)
next
  case False
  then show ?thesis
    using assms
    by (simp add: execute_def and_then_def ram_read_out_of_bounds)
qed

lemma unknown_opcode_halts:
  assumes "cpu_inv s" and "0 \<le> PC s" and "PC s \<le> 255"
    and "dispatch_table (mem s (PC s)) = None"
    and "use_alu (mem s (PC s)) = 0 \<or> PC s \<le> 253"
  shows "\<exists>s' line. run_cycle s = (Inr (), s') \<and> \<not> flag_set s' FLAG_RUNNING \<and>
           stdout s' = stdout s @ [line] \<and>
           (line = ''Unknown instruction 0x'' @ format_02X (mem s (PC s)) @
                   '' at address 0x'' @ format_02X (PC s) \<or>
            line = ''Unknown ALU instruction 0x'' @ format_02X (mem s (PC s)) @
                   '' at address 0x'' @ format_02X (PC s)) \<and>
           run_loop s' = Some (Inr (), s')"
proof -
  let ?ir = "mem s (PC s)"
  let ?s1 = "s\<lparr>IR := ?ir\<rparr>"
  have f: "fetch s = (Inr (), ?s1)" using assms by (simp add: fetch_ok)
  have halted: "\<not> flag_set (t\<lparr>FL := FL t AND NOT FLAG_RUNNING\<rparr>) FLAG_RUNNING" for t :: cpu
    by (simp add: flag_set_iff_bit bit_clear_flag)
  have adv: "\<exists>t'. advance ?ir t = (Inr (), t') \<and> FL t' = FL t \<and> stdout t' = stdout t" for t
    by (simp add: advance_def)
  show ?thesis
  proof (cases "use_alu ?ir = 0")
    case True
    let ?line = "''Unknown instruction 0x'' @ format_02X ?ir @ '' at address 0x'' @ format_02X (PC s)"
    let ?s2 = "?s1\<lparr>stdout := stdout s @ [?line], FL := FL s AND NOT FLAG_RUNNING\<rparr>"
    have e: "execute ?s1 = (Inr (), ?s2)"
      using execute_unknown [of ?s1] True assms(4) by simp
    obtain s' where a: "advance ?ir ?s2 = (Inr (), s')" "FL s' = FL ?s2" "stdout s' = stdout ?s2"
      using adv [of ?s2] by blast
    have c: "run_cycle s = (Inr (), s')"
      using f e a(1) by (simp add: run_cycle_def and_then_def)
    have h: "\<not> flag_set s' FLAG_RUNNING"
      using a(2) halted [of s] by (simp add: flag_set_def)
    then have "run_loop s' = Some (Inr (), s')"
      by (subst run_loop.simps) (simp add: flag_set_def)
    with c h a(3) show ?thesis by simp
  next
    case False
    with assms(5) have pc: "PC s \<le> 253" by simp
    let ?line = "''Unknown ALU instruction 0x'' @ format_02X ?ir @ '' at address 0x'' @ format_02X (PC s)"
    let ?s2 = "?s1\<lparr>stdout := stdout s @ [?line], FL := FL s AND NOT FLAG_RUNNING\<rparr>"
    have e: "execute ?s1 = (Inr (), ?s2)"
      using execute_unknown_alu [of ?s1] False assms pc by simp
    obtain s' where a: "advance ?ir ?s2 = (Inr (), s')" "FL s' = FL ?s2" "stdout s' = stdout ?s2"
      using adv [of ?s2] by blast
    have c: "run_cycle s = (Inr (), s')"
      using f e a(1) by (simp add: run_cycle_def and_then_def)
    have h: "\<not> flag_set s' FLAG_RUNNING"
      using a(2) halted [of s] by (simp add: flag_set_def)
    then have "run_loop s' = Some (Inr (), s')"
      by (subst run_loop.simps) (simp add: flag_set_def)
    with c h a(3) show ?thesis by simp
  qed
qed

lemma unknown_alu_opcode_at_end:
  assumes "cpu_inv s" and "254 \<le> PC s" and "PC s \<le> 255"
    and "use_alu (mem s (PC s)) \<noteq> 0" and "flag_set s FLAG_RUNNING"
  shows "run_loop s =
    Some (Inl (ReferenceError ''Out of bounds memory reference''), s\<lparr>IR := mem s (PC s)\<rparr>)"
proof -
  let ?s1 = "s\<lparr>IR := mem s (PC s)\<rparr>"
  have f: "fetch s = (Inr (), ?s1)" using assms by (simp add: fetch_ok)
  have e: "execute ?s1 = (Inl (ReferenceError ''Out of bounds memory reference''), ?s1)"
    using execute_alu_out_of_bounds [of ?s1] assms by simp
  have c: "run_cycle s = (Inl (ReferenceError ''Out of bounds memory reference''), ?s1)"
    using f e by (simp add: run_cycle_def and_then_def)
  show ?thesis
    using assms(5) c by (subst run_loop.simps) (simp add: flag_set_def)
qed

text \<open>
  C2. The program \<open>LDI R7,255; LDI R0,0x20; PUSH R0; LDI R1,254; JMP R1\<close> stores the
  byte 0x20, whose ALU bit is set and which the dispatch table does not map, at address
  254 and jumps there. \<open>run\<close> then raises \<open>ReferenceError\<close> from the read of the
  operand at address 256: nothing is printed and the RUNNING flag stays set.
\<close>

theorem unknown_alu_opcode_raises:
  "map_option fst (main [0x82, 7, 255, 0x82, 0, 0x20, 0x45, 0, 0x82, 1, 254, 0x54, 1]) =
     Some (Inl (ReferenceError ''Out of bounds memory reference'')) \<and>
   map_option (PC \<circ> snd) (main [0x82, 7, 255, 0x82, 0, 0x20, 0x45, 0, 0x82, 1, 254, 0x54, 1]) =
     Some 254 \<and>
   map_option (IR \<circ> snd) (main [0x82, 7, 255, 0x82, 0, 0x20, 0x45, 0, 0x82, 1, 254, 0x54, 1]) =
     Some 0x20 \<and>
   dispatch_table 0x20 = None \<and>
   map_option (stdout \<circ> snd) (main [0x82, 7, 255, 0x82, 0, 0x20, 0x45, 0, 0x82, 1, 254, 0x54, 1]) =
     Some [] \<and>
   map_option (FL \<circ> snd) (main [0x82, 7, 255, 0x82, 0, 0x20, 0x45, 0, 0x82, 1, 254, 0x54, 1]) =
     Some FLAG_RUNNING"
  by (simp add: machine_defs run_loop.simps)


section \<open>Values given to \<open>write_byte\<close>\<close>

lemma write_byte_NaN:
  "0 \<le> a \<Longrightarrow> a < size_m m \<Longrightarrow>
   write_byte m a (PyFloat NaN) =
     (Inl (ValueError ''cannot convert float NaN to integer''), m)"
  by (simp add: write_byte_def write_byte_try_def is_TypeError_def)

text \<open>
  C9. At a valid address, a value on which \<open>int()\<close> raises \<open>TypeError\<close> and a value
  whose integer coercion is outside [0, 255] both make \<open>write_byte\<close> raise its own
  \<open>TypeError\<close> and leave the memory as it was; a value whose integer coercion is in
  [0, 255] is stored as that integer. So the float 3.5 is not rejected: 3 is stored.
\<close>

theorem write_byte_float_counterexample:
  "py_int (PyFloat (Finite 7 (- 1))) = Inr 3 \<and>
   write_byte (Memory_init 4) 0 (PyFloat (Finite 7 (- 1))) =
     (Inr (), \<lparr>size_m = 4, internal_memory = [3, 0, 0, 0]\<rparr>)"
  by (simp add: write_byte_def write_byte_try_def Memory_init_def clear_def numeral_eq_Suc)

theorem write_byte_coercion:
  assumes "Memory_inv m" and "0 \<le> a" and "a < size_m m"
  shows "(\<forall>msg. py_int data = Inl (TypeError msg) \<longrightarrow>
            write_byte m a data = (Inl (TypeError ''Data must be an 8-bit number''), m)) \<and>
         (\<forall>n. py_int data = Inr n \<and> (n < 0 \<or> 255 < n) \<longrightarrow>
            write_byte m a data = (Inl (TypeError ''Data must be an 8-bit number''), m)) \<and>
         (\<forall>n. py_int data = Inr n \<and> 0 \<le> n \<and> n \<le> 255 \<longrightarrow>
            write_byte m a data =
              (Inr (), m\<lparr>internal_memory := (internal_memory m)[nat a := n]\<rparr>))"
proof -
  have len: "nat a < length (internal_memory m)"
    using assms by (auto simp: Memory_inv_def)
  show ?thesis
    using assms(2,3) len
    by (auto simp: write_byte_def write_byte_try_def is_TypeError_def)
qed

theorem write_byte_coercion_witness:
  "write_byte (Memory_init 4) 2 PyNone =
     (Inl (TypeError ''Data must be an 8-bit number''), Memory_init 4) \<and>
   write_byte (Memory_init 4) 2 (PyFloat (Finite 601 (- 1))) =
     (Inl (TypeError ''Data must be an 8-bit number''), Memory_init 4) \<and>
   write_byte (Memory_init 4) 2 (PyFloat (Finite 7 (- 1))) =
     (Inr (), (Memory_init 4)\<lparr>internal_memory := (internal_memory (Memory_init 4))[2 := 3]\<rparr>)"
proof -
  have i: "Memory_inv (Memory_init 4)" by (simp add: Memory_inv_init)
  have sz: "(2::int) < size_m (Memory_init 4)" by (simp add: Memory_init_def clear_def)
  have c: "py_int (PyFloat (Finite 601 (- 1))) = Inr 300" "py_int (PyFloat (Finite 7 (- 1))) = Inr 3"
    by simp_all
  show ?thesis
    using write_byte_coercion [OF i _ sz, of PyNone]
      write_byte_coercion [OF i _ sz, of "PyFloat (Finite 601 (- 1))"]
      write_byte_coercion [OF i _ sz, of "PyFloat (Finite 7 (- 1))"] c
    by simp
qed

end
